theory Spec2Isabelle
  imports Main "HOL-Library.AList"
begin

section \<open>Python values\<close>

text \<open>
  The module \<^verbatim>\<open>aiogram_dialog/context/storage.py\<close> is duck-typed: it flattens an entity
  with \<^verbatim>\<open>vars\<close>, rebuilds it with \<^verbatim>\<open>Context(**data)\<close> and tests values for
  truthiness. The embedding therefore works on a universe of Python values.
\<close>

text \<open>
  The membership-status enumeration of the bot framework (a string enumeration:
  every member is also the string of its value).
\<close>

datatype ChatMemberStatus = CREATOR | ADMINISTRATOR | MEMBER | RESTRICTED | LEFT | KICKED

fun status_value :: "ChatMemberStatus \<Rightarrow> string" where
  "status_value CREATOR = ''creator''"
| "status_value ADMINISTRATOR = ''administrator''"
| "status_value MEMBER = ''member''"
| "status_value RESTRICTED = ''restricted''"
| "status_value LEFT = ''left''"
| "status_value KICKED = ''kicked''"

definition all_statuses :: "ChatMemberStatus list" where
  "all_statuses = [CREATOR, ADMINISTRATOR, MEMBER, RESTRICTED, LEFT, KICKED]"

text \<open>
  A state definition of the state-machine framework. \<open>obj_id\<close> is the identity of
  the object (two state objects may carry the same text), \<open>state\<close> is what the attribute
  \<^verbatim>\<open>.state\<close> returns: the textual identifier \<^verbatim>\<open>group:name\<close>.
\<close>

record State =
  obj_id :: nat
  state :: string

text \<open>
  \<open>PAccessSettings user_ids member_status custom\<close> is an \<^verbatim>\<open>AccessSettings\<close> object;
  its three attributes hold whatever values the constructor was given.
\<close>

datatype pyval =
    PNone
  | PBool bool
  | PInt int
  | PStr string
  | PList "pyval list"
  | PDict "(string \<times> pyval) list"
  | PState State
  | PStatus ChatMemberStatus
  | PAccessSettings pyval pyval pyval

text \<open>
  A dictionary with string keys, in insertion order. The operations below keep the keys
  distinct when they were.
\<close>

type_synonym dict = "(string \<times> pyval) list"

datatype error =
    UnknownIntent string
  | UnknownState string
  | KeyError string
  | AttributeError
  | TypeError
  | ValueError

text \<open>Truthiness, as \<^verbatim>\<open>not x\<close> and \<^verbatim>\<open>if x\<close> test it.\<close>

fun truthy :: "pyval \<Rightarrow> bool" where
  "truthy PNone = False"
| "truthy (PBool b) = b"
| "truthy (PInt i) = (i \<noteq> 0)"
| "truthy (PStr s) = (s \<noteq> [])"
| "truthy (PList xs) = (xs \<noteq> [])"
| "truthy (PDict d) = (d \<noteq> [])"
| "truthy (PState r) = True"
| "truthy (PStatus m) = (status_value m \<noteq> [])"
| "truthy (PAccessSettings u m c) = True"

text \<open>\<^verbatim>\<open>d[k]\<close>: raises \<^verbatim>\<open>KeyError\<close> when the key is missing.\<close>

definition getitem :: "dict \<Rightarrow> string \<Rightarrow> error + pyval" where
  "getitem d k = (case map_of d k of None \<Rightarrow> Inl (KeyError k) | Some v \<Rightarrow> Inr v)"

text \<open>\<^verbatim>\<open>d.get(k)\<close>: \<^verbatim>\<open>None\<close> when the key is missing.\<close>

definition dict_get :: "dict \<Rightarrow> string \<Rightarrow> pyval" where
  "dict_get d k = (case map_of d k of None \<Rightarrow> PNone | Some v \<Rightarrow> v)"

text \<open>\<^verbatim>\<open>d[k] = v\<close>: replaces the value in place, or appends a new item.\<close>

definition dict_set :: "dict \<Rightarrow> string \<Rightarrow> pyval \<Rightarrow> dict" where
  "dict_set d k v = AList.update k v d"

text \<open>\<^verbatim>\<open>d.pop(k)\<close> with no default: raises \<^verbatim>\<open>KeyError\<close> when the key is missing.\<close>

definition dict_pop :: "dict \<Rightarrow> string \<Rightarrow> error + (pyval \<times> dict)" where
  "dict_pop d k =
     (case map_of d k of None \<Rightarrow> Inl (KeyError k) | Some v \<Rightarrow> Inr (v, AList.delete k d))"

text \<open>Reading an attribute of an object with attribute dictionary \<open>d\<close>.\<close>

definition getattr_obj :: "dict \<Rightarrow> string \<Rightarrow> error + pyval" where
  "getattr_obj d k = (case map_of d k of None \<Rightarrow> Inl AttributeError | Some v \<Rightarrow> Inr v)"

text \<open>
  The text of a string value (a member of the string enumeration is a string too);
  calling a string method on anything else raises \<^verbatim>\<open>AttributeError\<close>.
\<close>

fun as_str :: "pyval \<Rightarrow> error + string" where
  "as_str (PStr s) = Inr s"
| "as_str (PStatus m) = Inr (status_value m)"
| "as_str v = Inl AttributeError"

text \<open>The attribute \<^verbatim>\<open>.state\<close> of a value: only state objects have it.\<close>

fun attr_state :: "pyval \<Rightarrow> error + pyval" where
  "attr_state (PState r) = Inr (PStr (state r))"
| "attr_state v = Inl AttributeError"

text \<open>
  \<^verbatim>\<open>ChatMemberStatus(value)\<close>: a member is returned as it is, a string is looked up
  among the members' values, anything unrecognised raises \<^verbatim>\<open>ValueError\<close>.
\<close>

fun ChatMemberStatus_of :: "pyval \<Rightarrow> error + pyval" where
  "ChatMemberStatus_of (PStatus m) = Inr (PStatus m)"
| "ChatMemberStatus_of (PStr s) =
     (case find (\<lambda>m. status_value m = s) all_statuses of
        Some m \<Rightarrow> Inr (PStatus m)
      | None \<Rightarrow> Inl ValueError)"
| "ChatMemberStatus_of v = Inl ValueError"

text \<open>
  \<^verbatim>\<open>s.partition(sep)\<close> for a one-character separator: the text before the first
  separator, the separator if it occurs, the text after it.
\<close>

definition str_partition :: "string \<Rightarrow> char \<Rightarrow> string \<times> string \<times> string" where
  "str_partition s sep =
     (takeWhile (\<lambda>c. c \<noteq> sep) s,
      (if sep \<in> set s then [sep] else []),
      drop 1 (dropWhile (\<lambda>c. c \<noteq> sep) s))"

section \<open>Objects, the store and the proxy\<close>

text \<open>
  Entities are objects: an address in the heap, where the object's attribute dictionary
  (\<^verbatim>\<open>__dict__\<close>) lives. \<^verbatim>\<open>vars(obj)\<close> returns that very dictionary, so writing to
  it writes to the object; \<^verbatim>\<open>copy\<close> allocates a new dictionary. Addresses below
  \<open>lim\<close> are allocated.

  The key-value store (\<^verbatim>\<open>BaseStorage\<close> of the bot framework) is an external
  collaborator. The spec gives its contract: \<^verbatim>\<open>get_data(key)\<close> returns the stored
  mapping, or an empty one when there is none, and \<^verbatim>\<open>set_data(key, data)\<close> persists a
  mapping, which is returned verbatim later. The store takes the mapping as it is at the
  call and hands out a mapping of its own.
\<close>

type_synonym addr = nat

record StorageKey =
  bot_id :: int
  chat_id :: int
  user_id :: int
  thread_id :: "int option"
  destiny :: string

record world =
  heap :: "addr \<Rightarrow> dict"
  lim :: addr
  storage :: "StorageKey \<Rightarrow> dict"

definition alloc :: "world \<Rightarrow> dict \<Rightarrow> addr \<times> world" where
  "alloc w d = (lim w, w\<lparr>heap := (heap w)(lim w := d), lim := Suc (lim w)\<rparr>)"

definition vars_of :: "addr \<Rightarrow> addr" where
  "vars_of obj = obj"

definition copy_dict :: "world \<Rightarrow> addr \<Rightarrow> addr \<times> world" where
  "copy_dict w a = alloc w (heap w a)"

definition setitem :: "world \<Rightarrow> addr \<Rightarrow> string \<Rightarrow> pyval \<Rightarrow> world" where
  "setitem w a k v = w\<lparr>heap := (heap w)(a := dict_set (heap w a) k v)\<rparr>"

definition get_data :: "world \<Rightarrow> StorageKey \<Rightarrow> dict" where
  "get_data w key = storage w key"

definition set_data :: "world \<Rightarrow> StorageKey \<Rightarrow> dict \<Rightarrow> world" where
  "set_data w key d = w\<lparr>storage := (storage w)(key := d)\<rparr>"

text \<open>
  The proxy's configuration, fixed at construction. \<open>self_bot_id\<close> is
  \<^verbatim>\<open>self.bot.id\<close>; \<open>state_groups\<close> maps a group name to the group's
  \<^verbatim>\<open>__all_states__\<close>, in declared order. The store itself is in the world.
\<close>

record StorageProxy =
  self_user_id :: int
  self_chat_id :: int
  self_chat_type :: string
  self_thread_id :: "int option"
  self_bot_id :: int
  state_groups :: "string \<rightharpoonup> State list"

subsection \<open>The entity declarations\<close>

text \<open>
  Modelled from the spec: the classes \<^verbatim>\<open>Context\<close>, \<^verbatim>\<open>Stack\<close> and
  \<^verbatim>\<open>AccessSettings\<close> are imported by the source from \<^verbatim>\<open>aiogram_dialog.api.entities\<close>,
  which is not under \<^verbatim>\<open>src/\<close>. The spec gives a context an \<open>id\<close> (a string), a
  \<open>state\<close> and other opaque fields; a stack an id, an ordered history of intent
  identifiers (of a shape left open), an optional \<open>last_message_id\<close> and optional
  \<open>access_settings\<close>;
  access settings the fields \<open>user_ids\<close>, \<open>member_status\<close> and \<open>custom\<close>. The source
  adds that the stack's constructor takes the id as \<^verbatim>\<open>_id\<close> and that every other
  field of a stack has a default (\<^verbatim>\<open>Stack(_id=stack_id)\<close>). Neither class defines a
  truth value, so every instance is truthy.

  The records are the typed view of these declarations; \<open>vars_Context\<close> and
  \<open>vars_Stack\<close> give the attribute dictionary of an instance.
\<close>

record Context =
  intent_id :: string
  ctx_state :: State
  extra :: dict

record AccessSettings =
  user_ids :: "int list"
  member_status :: "ChatMemberStatus option"
  custom :: pyval

record Stack =
  stack_id :: string
  intents :: "pyval list"
  last_message_id :: "int option"
  access_settings :: "AccessSettings option"

definition vars_Context :: "Context \<Rightarrow> dict" where
  "vars_Context c =
     (''id'', PStr (intent_id c)) # (''state'', PState (ctx_state c)) # extra c"

definition obj_AccessSettings :: "AccessSettings \<Rightarrow> pyval" where
  "obj_AccessSettings a =
     PAccessSettings (PList (map PInt (user_ids a)))
       (case member_status a of None \<Rightarrow> PNone | Some m \<Rightarrow> PStatus m)
       (custom a)"

definition vars_Stack :: "Stack \<Rightarrow> dict" where
  "vars_Stack s =
     [(''_id'', PStr (stack_id s)),
      (''intents'', PList (intents s)),
      (''last_message_id'', (case last_message_id s of None \<Rightarrow> PNone | Some i \<Rightarrow> PInt i)),
      (''access_settings'',
         (case access_settings s of None \<Rightarrow> PNone | Some a \<Rightarrow> obj_AccessSettings a))]"

text \<open>
  Modelled from the spec: \<^verbatim>\<open>Context(**kwargs)\<close>. \<open>id\<close> and \<open>state\<close> are required
  (a missing one is a \<^verbatim>\<open>TypeError\<close>); the other fields are passed through.
\<close>

definition Context_init :: "dict \<Rightarrow> error + dict" where
  "Context_init kwargs =
     (case map_of kwargs ''id'' of
        None \<Rightarrow> Inl TypeError
      | Some i \<Rightarrow>
          (case map_of kwargs ''state'' of
             None \<Rightarrow> Inl TypeError
           | Some s \<Rightarrow>
               Inr ((''id'', i) # (''state'', s) #
                    AList.delete ''id'' (AList.delete ''state'' kwargs))))"

text \<open>
  Modelled from the spec: the well-known id of the primary stack, the default of a
  stack's id. The source imports the constant; its value is not under \<^verbatim>\<open>src/\<close> and
  no result below depends on it.
\<close>

definition DEFAULT_STACK_ID :: string where
  "DEFAULT_STACK_ID = ''''"

definition Stack_fields :: "string list" where
  "Stack_fields = [''_id'', ''intents'', ''last_message_id'', ''access_settings'']"

definition kwarg :: "dict \<Rightarrow> string \<Rightarrow> pyval \<Rightarrow> pyval" where
  "kwarg kwargs k dflt = (case map_of kwargs k of None \<Rightarrow> dflt | Some v \<Rightarrow> v)"

text \<open>
  Modelled from the spec: \<^verbatim>\<open>Stack(**kwargs)\<close>. An unexpected keyword is a
  \<^verbatim>\<open>TypeError\<close>; a missing field takes its default: no history, no last message id,
  no access settings.
\<close>

definition Stack_init :: "dict \<Rightarrow> error + dict" where
  "Stack_init kwargs =
     (if list_all (\<lambda>kv. fst kv \<in> set Stack_fields) kwargs
      then Inr [(''_id'', kwarg kwargs ''_id'' (PStr DEFAULT_STACK_ID)),
                (''intents'', kwarg kwargs ''intents'' (PList [])),
                (''last_message_id'', kwarg kwargs ''last_message_id'' PNone),
                (''access_settings'', kwarg kwargs ''access_settings'' PNone)]
      else Inl TypeError)"

text \<open>
  Modelled from the spec: the property \<^verbatim>\<open>id\<close> of both classes (a string, by its
  declaration) and \<^verbatim>\<open>Stack.empty()\<close>, which tells whether the history is empty.
\<close>

definition Context_id :: "dict \<Rightarrow> error + string" where
  "Context_id d =
     (case map_of d ''id'' of
        None \<Rightarrow> Inl AttributeError
      | Some v \<Rightarrow> (case v of PStr s \<Rightarrow> Inr s | _ \<Rightarrow> Inl TypeError))"

definition Stack_id :: "dict \<Rightarrow> error + string" where
  "Stack_id d =
     (case map_of d ''_id'' of
        None \<Rightarrow> Inl AttributeError
      | Some v \<Rightarrow> (case v of PStr s \<Rightarrow> Inr s | _ \<Rightarrow> Inl TypeError))"

definition Stack_empty :: "dict \<Rightarrow> error + bool" where
  "Stack_empty d =
     (case getattr_obj d ''intents'' of Inl e \<Rightarrow> Inl e | Inr v \<Rightarrow> Inr (\<not> truthy v))"

section \<open>The storage proxy\<close>

text \<open>
  The methods of \<^verbatim>\<open>StorageProxy\<close>. A leading underscore of a method name is written
  as the prefix \<open>p_\<close>. The methods are coroutines that await the store; each call is
  taken as a whole, one after the other. A method takes the world and returns either the
  error it raises or its result with the world after it. \<^verbatim>\<open>load_stack\<close> is always
  given its stack id; the default of that parameter is the caller's matter.
\<close>

definition p_context_key :: "StorageProxy \<Rightarrow> string \<Rightarrow> StorageKey" where
  "p_context_key p iid =
     \<lparr>bot_id = self_bot_id p, chat_id = self_chat_id p, user_id = self_user_id p,
      thread_id = self_thread_id p, destiny = ''aiogd:context:'' @ iid\<rparr>"

definition p_stack_key :: "StorageProxy \<Rightarrow> string \<Rightarrow> StorageKey" where
  "p_stack_key p sid =
     \<lparr>bot_id = self_bot_id p, chat_id = self_chat_id p, user_id = self_user_id p,
      thread_id = self_thread_id p, destiny = ''aiogd:stack:'' @ sid\<rparr>"

text \<open>The loop of \<^verbatim>\<open>_state\<close> over \<^verbatim>\<open>__all_states__\<close>.\<close>

fun scan_states :: "State list \<Rightarrow> string \<Rightarrow> State option" where
  "scan_states [] st = None"
| "scan_states (real_state # rest) st =
     (if state real_state = st then Some real_state else scan_states rest st)"

definition p_state :: "StorageProxy \<Rightarrow> string \<Rightarrow> error + State" where
  "p_state p st =
     (let group = fst (str_partition st CHR '':'') in
      case state_groups p group of
        None \<Rightarrow> Inl (UnknownState (''Unknown state group '' @ group))
      | Some all_states \<Rightarrow>
          (case scan_states all_states st of
             Some real_state \<Rightarrow> Inr real_state
           | None \<Rightarrow> Inl (UnknownState (''Unknown state '' @ st))))"

definition p_parse_access_settings :: "pyval \<Rightarrow> error + pyval" where
  "p_parse_access_settings raw =
     (if \<not> truthy raw then Inr PNone
      else case raw of
        PDict d \<Rightarrow>
          (let raw_member_status = dict_get d ''member_status'' in
           case (if truthy raw_member_status then ChatMemberStatus_of raw_member_status
                 else Inr PNone) of
             Inl e \<Rightarrow> Inl e
           | Inr decoded \<Rightarrow>
               Inr (PAccessSettings
                      (if truthy (dict_get d ''user_ids'') then dict_get d ''user_ids''
                       else PList [])
                      decoded
                      (dict_get d ''custom'')))
      | _ \<Rightarrow> Inl AttributeError)"

definition p_dump_access_settings :: "pyval \<Rightarrow> error + pyval" where
  "p_dump_access_settings settings =
     (if \<not> truthy settings then Inr PNone
      else case settings of
        PAccessSettings u m c \<Rightarrow>
          Inr (PDict [(''user_ids'', u), (''member_status'', m), (''custom'', c)])
      | _ \<Rightarrow> Inl AttributeError)"

definition load_context :: "StorageProxy \<Rightarrow> world \<Rightarrow> string \<Rightarrow> error + (addr \<times> world)" where
  "load_context p w iid =
     (let data = get_data w (p_context_key p iid) in
      if \<not> truthy (PDict data)
      then Inl (UnknownIntent (''Context not found for intent id: '' @ iid))
      else case getitem data ''state'' of
        Inl e \<Rightarrow> Inl e
      | Inr raw \<Rightarrow>
          (case as_str raw of
             Inl e \<Rightarrow> Inl e
           | Inr txt \<Rightarrow>
               (case p_state p txt of
                  Inl e \<Rightarrow> Inl e
                | Inr st \<Rightarrow>
                    (case Context_init (dict_set data ''state'' (PState st)) of
                       Inl e \<Rightarrow> Inl e
                     | Inr obj \<Rightarrow> Inr (alloc w obj)))))"

definition load_stack :: "StorageProxy \<Rightarrow> world \<Rightarrow> string \<Rightarrow> error + (addr \<times> world)" where
  "load_stack p w sid =
     (let data = get_data w (p_stack_key p sid) in
      if \<not> truthy (PDict data)
      then (case Stack_init [(''_id'', PStr sid)] of
              Inl e \<Rightarrow> Inl e
            | Inr obj \<Rightarrow> Inr (alloc w obj))
      else case dict_pop data ''access_settings'' of
        Inl e \<Rightarrow> Inl e
      | Inr (raw, data') \<Rightarrow>
          (case p_parse_access_settings raw of
             Inl e \<Rightarrow> Inl e
           | Inr parsed \<Rightarrow>
               (case Stack_init ((''access_settings'', parsed) # data') of
                  Inl e \<Rightarrow> Inl e
                | Inr obj \<Rightarrow> Inr (alloc w obj))))"

definition save_context :: "StorageProxy \<Rightarrow> world \<Rightarrow> addr option \<Rightarrow> error + world" where
  "save_context p w context =
     (case context of
        None \<Rightarrow> Inr w
      | Some c \<Rightarrow>
          (case copy_dict w (vars_of c) of
             (data, w1) \<Rightarrow>
               (case getitem (heap w1 data) ''state'' of
                  Inl e \<Rightarrow> Inl e
                | Inr s \<Rightarrow>
                    (case attr_state s of
                       Inl e \<Rightarrow> Inl e
                     | Inr txt \<Rightarrow>
                         (let w2 = setitem w1 data ''state'' txt in
                          case Context_id (heap w2 c) of
                            Inl e \<Rightarrow> Inl e
                          | Inr iid \<Rightarrow>
                              Inr (set_data w2 (p_context_key p iid) (heap w2 data)))))))"

definition remove_context :: "StorageProxy \<Rightarrow> world \<Rightarrow> string \<Rightarrow> world" where
  "remove_context p w iid = set_data w (p_context_key p iid) []"

definition remove_stack :: "StorageProxy \<Rightarrow> world \<Rightarrow> string \<Rightarrow> world" where
  "remove_stack p w sid = set_data w (p_stack_key p sid) []"

text \<open>
  The test \<^verbatim>\<open>stack.empty() and not stack.last_message_id\<close>: the second operand is
  read only when the first holds.
\<close>

definition logically_empty :: "dict \<Rightarrow> error + bool" where
  "logically_empty d =
     (case Stack_empty d of
        Inl e \<Rightarrow> Inl e
      | Inr emp \<Rightarrow>
          (if emp
           then (case getattr_obj d ''last_message_id'' of
                   Inl e \<Rightarrow> Inl e
                 | Inr m \<Rightarrow> Inr (\<not> truthy m))
           else Inr False))"

definition save_stack :: "StorageProxy \<Rightarrow> world \<Rightarrow> addr option \<Rightarrow> error + world" where
  "save_stack p w stack =
     (case stack of
        None \<Rightarrow> Inr w
      | Some s \<Rightarrow>
          (case logically_empty (heap w s) of
             Inl e \<Rightarrow> Inl e
           | Inr True \<Rightarrow>
               (case Stack_id (heap w s) of
                  Inl e \<Rightarrow> Inl e
                | Inr sid \<Rightarrow> Inr (set_data w (p_stack_key p sid) []))
           | Inr False \<Rightarrow>
               (case copy_dict w (vars_of s) of
                  (data, w1) \<Rightarrow>
                    (case getattr_obj (heap w1 s) ''access_settings'' of
                       Inl e \<Rightarrow> Inl e
                     | Inr acc \<Rightarrow>
                         (case p_dump_access_settings acc of
                            Inl e \<Rightarrow> Inl e
                          | Inr dumped \<Rightarrow>
                              (let w2 = setitem w1 data ''access_settings'' dumped in
                               case Stack_id (heap w2 s) of
                                 Inl e \<Rightarrow> Inl e
                               | Inr sid \<Rightarrow>
                                   Inr (set_data w2 (p_stack_key p sid) (heap w2 data))))))))"

section \<open>What the saves write\<close>

text \<open>
  For an entity of the declared types, the mappings that \<^verbatim>\<open>save_context\<close> and
  \<^verbatim>\<open>save_stack\<close> hand to the store, written out: the entity's attributes with the
  state replaced by its text, and with the access settings replaced by their dump.
  \<open>val_settings\<close> is the value of a stack's \<^verbatim>\<open>access_settings\<close> attribute.
\<close>

definition flat_Context :: "Context \<Rightarrow> dict" where
  "flat_Context c =
     (''id'', PStr (intent_id c)) # (''state'', PStr (state (ctx_state c))) # extra c"

definition val_settings :: "AccessSettings option \<Rightarrow> pyval" where
  "val_settings acc = (case acc of None \<Rightarrow> PNone | Some a \<Rightarrow> obj_AccessSettings a)"

definition dumped_settings :: "AccessSettings option \<Rightarrow> pyval" where
  "dumped_settings acc =
     (case acc of
        None \<Rightarrow> PNone
      | Some a \<Rightarrow>
          PDict [(''user_ids'', PList (map PInt (user_ids a))),
                 (''member_status'',
                    (case member_status a of None \<Rightarrow> PNone | Some m \<Rightarrow> PStatus m)),
                 (''custom'', custom a)])"

definition flat_Stack :: "Stack \<Rightarrow> dict" where
  "flat_Stack s =
     [(''_id'', PStr (stack_id s)),
      (''intents'', PList (intents s)),
      (''last_message_id'', (case last_message_id s of None \<Rightarrow> PNone | Some i \<Rightarrow> PInt i)),
      (''access_settings'', dumped_settings (access_settings s))]"

section \<open>Example inputs\<close>

text \<open>
  The registry of the spec's example, group \<open>Main\<close> with two states, and worlds
  holding a stored context record, a stored stack record without the field
  \<open>access_settings\<close>, a stored context record whose state names an unregistered group,
  a context object in the first state of the group and one in the second, a populated
  stack object, an empty stack object that carries access
  settings, a stack object with no history, a last message id and no access settings, a
  stored stack record as \<^verbatim>\<open>save_stack\<close> writes it, and a stack object with an empty
  history and the last message id \<open>0\<close>.
\<close>

definition stateA :: State where
  "stateA = \<lparr>obj_id = 1, state = ''Main:step1''\<rparr>"

definition stateB :: State where
  "stateB = \<lparr>obj_id = 2, state = ''Main:step2''\<rparr>"

definition demo_proxy :: StorageProxy where
  "demo_proxy =
     \<lparr>self_user_id = 7, self_chat_id = 8, self_chat_type = ''private'',
      self_thread_id = None, self_bot_id = 9,
      state_groups = [''Main'' \<mapsto> [stateA, stateB]]\<rparr>"

definition demo_world :: world where
  "demo_world = \<lparr>heap = (\<lambda>a. []), lim = 0, storage = (\<lambda>key. [])\<rparr>"

definition demo_raw_settings :: dict where
  "demo_raw_settings =
     [(''user_ids'', PList [PInt 1, PInt 2]), (''member_status'', PStr ''administrator''),
      (''custom'', PNone)]"

definition demo_context_record :: dict where
  "demo_context_record =
     [(''id'', PStr ''i1''), (''state'', PStr ''Main:step1''),
      (''dialog_data'', PDict [(''k'', PInt 3)])]"

definition demo_stack_record :: dict where
  "demo_stack_record =
     [(''_id'', PStr ''s''), (''intents'', PList [PStr ''i1'']), (''last_message_id'', PInt 5)]"

definition demo_stored_world :: world where
  "demo_stored_world =
     \<lparr>heap = (\<lambda>a. []), lim = 0,
      storage = (\<lambda>key. if key = p_context_key demo_proxy ''i1'' then demo_context_record
                        else if key = p_stack_key demo_proxy ''s'' then demo_stack_record
                        else [])\<rparr>"

definition demo_unresolved_record :: dict where
  "demo_unresolved_record = [(''id'', PStr ''i2''), (''state'', PStr ''Other:step1'')]"

definition demo_unresolved_world :: world where
  "demo_unresolved_world =
     \<lparr>heap = (\<lambda>a. []), lim = 0,
      storage = (\<lambda>key. if key = p_context_key demo_proxy ''i2'' then demo_unresolved_record
                        else [])\<rparr>"

definition demo_context :: Context where
  "demo_context =
     \<lparr>intent_id = ''i1'', ctx_state = stateA,
      extra = [(''dialog_data'', PDict [(''k'', PInt 3)])]\<rparr>"

definition demo_context_world :: world where
  "demo_context_world =
     \<lparr>heap = (\<lambda>a. [])(0 := vars_Context demo_context), lim = 1, storage = (\<lambda>key. [])\<rparr>"

definition demo_second_context :: Context where
  "demo_second_context =
     \<lparr>intent_id = ''i7'', ctx_state = stateB,
      extra = [(''start_data'', PNone), (''dialog_data'', PDict [(''k'', PInt 3)])]\<rparr>"

definition demo_second_world :: world where
  "demo_second_world =
     \<lparr>heap = (\<lambda>a. [])(0 := vars_Context demo_second_context), lim = 1,
      storage = (\<lambda>key. [])\<rparr>"

definition demo_settings :: AccessSettings where
  "demo_settings = \<lparr>user_ids = [1, 2], member_status = Some ADMINISTRATOR, custom = PNone\<rparr>"

definition demo_stack :: Stack where
  "demo_stack =
     \<lparr>stack_id = ''s'', intents = [PStr ''i1''], last_message_id = Some 5,
      access_settings = Some demo_settings\<rparr>"

definition demo_stack_world :: world where
  "demo_stack_world =
     \<lparr>heap = (\<lambda>a. [])(0 := vars_Stack demo_stack), lim = 1, storage = (\<lambda>key. [])\<rparr>"

definition demo_bare_stack :: Stack where
  "demo_bare_stack =
     \<lparr>stack_id = ''t'', intents = [], last_message_id = Some 7, access_settings = None\<rparr>"

definition demo_bare_world :: world where
  "demo_bare_world =
     \<lparr>heap = (\<lambda>a. [])(0 := vars_Stack demo_bare_stack), lim = 1, storage = (\<lambda>key. [])\<rparr>"

definition demo_full_world :: world where
  "demo_full_world =
     \<lparr>heap = (\<lambda>a. []), lim = 0,
      storage = (\<lambda>key. if key = p_stack_key demo_proxy ''s'' then flat_Stack demo_stack
                        else [])\<rparr>"

definition demo_empty_stack :: Stack where
  "demo_empty_stack =
     \<lparr>stack_id = ''s'', intents = [], last_message_id = None,
      access_settings = Some demo_settings\<rparr>"

definition demo_zero_stack :: Stack where
  "demo_zero_stack =
     \<lparr>stack_id = ''s'', intents = [], last_message_id = Some 0, access_settings = None\<rparr>"

definition demo_zero_world :: world where
  "demo_zero_world =
     \<lparr>heap = (\<lambda>a. [])(0 := vars_Stack demo_zero_stack), lim = 1,
      storage = (\<lambda>key. [])\<rparr>"

definition demo_empty_stack_world :: world where
  "demo_empty_stack_world =
     \<lparr>heap = (\<lambda>a. [])(0 := vars_Stack demo_empty_stack), lim = 1,
      storage = (\<lambda>key. [])\<rparr>"

section \<open>State resolution and keys\<close>

lemma scan_states_None: "(scan_states ss st = None) = (\<forall>r \<in> set ss. state r \<noteq> st)"
  by (induction ss) auto

lemma scan_states_Some:
  "scan_states ss st = Some r \<Longrightarrow>
     \<exists>i < length ss. ss ! i = r \<and> state r = st \<and> (\<forall>j < i. state (ss ! j) \<noteq> st)"
proof (induction ss)
  case Nil
  then show ?case by simp
next
  case (Cons x xs)
  show ?case
  proof (cases "state x = st")
    case True
    with Cons.prems have "r = x" by simp
    with True show ?thesis by (intro exI [of _ 0]) simp
  next
    case False
    with Cons.prems have "scan_states xs st = Some r" by simp
    from Cons.IH [OF this] obtain i where
      i: "i < length xs" "xs ! i = r" "state r = st" "\<forall>j < i. state (xs ! j) \<noteq> st"
      by blast
    have "\<forall>j < Suc i. state ((x # xs) ! j) \<noteq> st"
      using False i(4) by (auto simp: less_Suc_eq_0_disj)
    with i show ?thesis by (intro exI [of _ "Suc i"]) simp
  qed
qed

lemma partition_group:
  "CHR '':'' \<notin> set (fst (str_partition st CHR '':''))"
  "CHR '':'' \<notin> set st \<Longrightarrow> fst (str_partition st CHR '':'') = st"
  "CHR '':'' \<in> set st \<Longrightarrow> \<exists>rest. st = fst (str_partition st CHR '':'') @ CHR '':'' # rest"
proof -
  show "CHR '':'' \<notin> set (fst (str_partition st CHR '':''))"
    by (auto simp: str_partition_def dest: set_takeWhileD)
  show "CHR '':'' \<notin> set st \<Longrightarrow> fst (str_partition st CHR '':'') = st"
    by (auto simp: str_partition_def)
  assume "CHR '':'' \<in> set st"
  then have "dropWhile (\<lambda>c. c \<noteq> CHR '':'') st \<noteq> []"
    by (simp add: dropWhile_eq_Nil_conv)
  then obtain y ys where d: "dropWhile (\<lambda>c. c \<noteq> CHR '':'') st = y # ys"
    by (cases "dropWhile (\<lambda>c. c \<noteq> CHR '':'') st") auto
  then have "y = CHR '':''"
    using hd_dropWhile [of "\<lambda>c. c \<noteq> CHR '':''" st] by auto
  with d have "st = takeWhile (\<lambda>c. c \<noteq> CHR '':'') st @ CHR '':'' # ys"
    using takeWhile_dropWhile_id [of "\<lambda>c. c \<noteq> CHR '':''" st] by simp
  then show "\<exists>rest. st = fst (str_partition st CHR '':'') @ CHR '':'' # rest"
    by (auto simp: str_partition_def)
qed

text \<open>
  C3: \<open>_state\<close> takes as group the text before the first \<open>:\<close> of its input (the
  whole input when there is none). An unregistered group fails with \<open>UnknownState\<close>
  naming the group. For a registered group the members are scanned in declared order and
  the result is the first member whose identifier equals the whole input: the member of
  the registry itself, at its index, identity included. When no member matches, the call
  fails with \<open>UnknownState\<close> naming the whole input.
\<close>

theorem state_resolution:
  "CHR '':'' \<notin> set (fst (str_partition st CHR '':''))
   \<and> (CHR '':'' \<notin> set st \<longrightarrow> fst (str_partition st CHR '':'') = st)
   \<and> (CHR '':'' \<in> set st \<longrightarrow> (\<exists>rest. st = fst (str_partition st CHR '':'') @ CHR '':'' # rest))
   \<and> (state_groups p (fst (str_partition st CHR '':'')) = None \<longrightarrow>
        p_state p st =
          Inl (UnknownState (''Unknown state group '' @ fst (str_partition st CHR '':''))))
   \<and> (\<forall>ss. state_groups p (fst (str_partition st CHR '':'')) = Some ss \<longrightarrow>
        ((\<exists>r \<in> set ss. state r = st) \<longrightarrow>
           (\<exists>i < length ss. p_state p st = Inr (ss ! i) \<and> state (ss ! i) = st
              \<and> (\<forall>j < i. state (ss ! j) \<noteq> st)))
        \<and> ((\<forall>r \<in> set ss. state r \<noteq> st) \<longrightarrow>
           p_state p st = Inl (UnknownState (''Unknown state '' @ st))))"
proof (intro conjI allI impI)
  fix ss
  assume g: "state_groups p (fst (str_partition st CHR '':'')) = Some ss"
  {
    assume "\<exists>r \<in> set ss. state r = st"
    then have "scan_states ss st \<noteq> None" by (simp add: scan_states_None)
    then obtain r where r: "scan_states ss st = Some r" by auto
    from scan_states_Some [OF r] obtain i where
      "i < length ss" "ss ! i = r" "state r = st" "\<forall>j < i. state (ss ! j) \<noteq> st" by blast
    moreover have "p_state p st = Inr r" using g r by (simp add: p_state_def)
    ultimately show "\<exists>i < length ss. p_state p st = Inr (ss ! i) \<and> state (ss ! i) = st
              \<and> (\<forall>j < i. state (ss ! j) \<noteq> st)" by auto
  }
  {
    assume "\<forall>r \<in> set ss. state r \<noteq> st"
    then have "scan_states ss st = None" by (simp add: scan_states_None)
    then show "p_state p st = Inl (UnknownState (''Unknown state '' @ st))"
      using g by (simp add: p_state_def)
  }
qed (simp_all add: partition_group p_state_def)

lemma demo_groups: "fst (str_partition ''Main:step1'' CHR '':'') = ''Main''"
  "fst (str_partition ''Main:step9'' CHR '':'') = ''Main''"
  "fst (str_partition ''Other:step1'' CHR '':'') = ''Other''"
  by (simp_all add: str_partition_def)

theorem state_resolution_witness:
  "p_state demo_proxy ''Main:step1'' = Inr stateA
   \<and> p_state demo_proxy ''Main:step9'' = Inl (UnknownState ''Unknown state Main:step9'')
   \<and> p_state demo_proxy ''Other:step1'' = Inl (UnknownState ''Unknown state group Other'')"
proof -
  have g: "state_groups demo_proxy ''Main'' = Some [stateA, stateB]"
    "state_groups demo_proxy ''Other'' = None"
    by (simp_all add: demo_proxy_def)
  have a: "\<exists>r \<in> set [stateA, stateB]. state r = ''Main:step1''"
    by (simp add: stateA_def)
  have b: "\<forall>r \<in> set [stateA, stateB]. state r \<noteq> ''Main:step9''"
    by (simp add: stateA_def stateB_def)
  from state_resolution [of "''Main:step1''" demo_proxy] g a
  obtain i where i: "i < length [stateA, stateB]"
      "p_state demo_proxy ''Main:step1'' = Inr ([stateA, stateB] ! i)"
      "\<forall>j < i. state ([stateA, stateB] ! j) \<noteq> ''Main:step1''"
    unfolding demo_groups by blast
  have "i = 0"
  proof (rule ccontr)
    assume "i \<noteq> 0"
    then have "0 < i" by simp
    with i(3) have "state ([stateA, stateB] ! 0) \<noteq> ''Main:step1''" by blast
    then show False by (simp add: stateA_def)
  qed
  with i(2) have 1: "p_state demo_proxy ''Main:step1'' = Inr stateA" by simp
  from state_resolution [of "''Main:step9''" demo_proxy] g b
  have 2: "p_state demo_proxy ''Main:step9'' = Inl (UnknownState ''Unknown state Main:step9'')"
    unfolding demo_groups by simp
  from state_resolution [of "''Other:step1''" demo_proxy] g
  have 3: "p_state demo_proxy ''Other:step1'' = Inl (UnknownState ''Unknown state group Other'')"
    unfolding demo_groups by simp
  from 1 2 3 show ?thesis by simp
qed

text \<open>
  C8: a key has five parts: the bot's id, the chat id, the user id, the optional thread
  id and a discriminator \<open>aiogd:context:<id>\<close> or \<open>aiogd:stack:<id>\<close>. Two context
  keys, or two stack keys, are equal only for equal ids, and a context key never equals a
  stack key, whatever the ids and the proxies.
\<close>

theorem storage_key_shape:
  "p_context_key p i =
     \<lparr>bot_id = self_bot_id p, chat_id = self_chat_id p, user_id = self_user_id p,
      thread_id = self_thread_id p, destiny = ''aiogd'' @ '':'' @ ''context'' @ '':'' @ i\<rparr>
   \<and> p_stack_key p i =
     \<lparr>bot_id = self_bot_id p, chat_id = self_chat_id p, user_id = self_user_id p,
      thread_id = self_thread_id p, destiny = ''aiogd'' @ '':'' @ ''stack'' @ '':'' @ i\<rparr>
   \<and> (p_context_key p i = p_context_key p j) = (i = j)
   \<and> (p_stack_key p i = p_stack_key p j) = (i = j)
   \<and> p_context_key p i \<noteq> p_stack_key q j"
  by (simp add: p_context_key_def p_stack_key_def)

section \<open>Access settings\<close>

lemma find_status: "find (\<lambda>n. status_value n = status_value m) all_statuses = Some m"
  by (cases m) (simp_all add: all_statuses_def)

lemma find_status_None:
  "(\<forall>m. status_value m \<noteq> s) \<Longrightarrow> find (\<lambda>n. status_value n = s) all_statuses = None"
  by (simp add: find_None_iff)

lemma status_value_nonempty: "status_value m \<noteq> []"
  by (cases m) simp_all

text \<open>
  C7: parsing an absent (\<open>None\<close>) or empty raw sub-record gives \<open>None\<close>. For a
  non-empty record \<open>d\<close> the result is an \<open>AccessSettings\<close> object whose \<open>user_ids\<close>
  is the empty list when the field is missing (or holds an empty value) and the stored
  value otherwise, and whose \<open>custom\<close> is the stored value (\<open>None\<close> when missing). Its
  \<open>member_status\<close> is \<open>None\<close> when the stored one is missing or empty, and the member of
  the enumeration when the stored one is a member or the literal of one; any other
  non-empty value makes the call fail with the \<open>ValueError\<close> of the enumeration.
  Dumping \<open>None\<close> gives \<open>None\<close>; dumping an object gives the record of exactly its
  three fields, each as it is.
\<close>

theorem access_settings_parse_dump:
  "p_parse_access_settings PNone = Inr PNone
   \<and> p_parse_access_settings (PDict []) = Inr PNone
   \<and> (d \<noteq> [] \<longrightarrow>
        (\<not> truthy (dict_get d ''member_status'') \<longrightarrow>
           (\<exists>u. p_parse_access_settings (PDict d) =
                  Inr (PAccessSettings u PNone (dict_get d ''custom''))
              \<and> (map_of d ''user_ids'' = None \<longrightarrow> u = PList [])
              \<and> (\<not> truthy (dict_get d ''user_ids'') \<longrightarrow> u = PList [])
              \<and> (truthy (dict_get d ''user_ids'') \<longrightarrow> u = dict_get d ''user_ids'')))
      \<and> (dict_get d ''member_status'' = PStr (status_value m)
            \<or> dict_get d ''member_status'' = PStatus m \<longrightarrow>
           (\<exists>u. p_parse_access_settings (PDict d) =
                  Inr (PAccessSettings u (PStatus m) (dict_get d ''custom''))
              \<and> (map_of d ''user_ids'' = None \<longrightarrow> u = PList [])
              \<and> (\<not> truthy (dict_get d ''user_ids'') \<longrightarrow> u = PList [])
              \<and> (truthy (dict_get d ''user_ids'') \<longrightarrow> u = dict_get d ''user_ids'')))
      \<and> (truthy (dict_get d ''member_status'')
            \<and> (\<forall>n. dict_get d ''member_status'' \<noteq> PStr (status_value n)
                     \<and> dict_get d ''member_status'' \<noteq> PStatus n) \<longrightarrow>
           p_parse_access_settings (PDict d) = Inl ValueError))
   \<and> p_dump_access_settings PNone = Inr PNone
   \<and> p_dump_access_settings (PAccessSettings u0 m0 c0) =
        Inr (PDict [(''user_ids'', u0), (''member_status'', m0), (''custom'', c0)])"
proof -
  have absent: "p_parse_access_settings PNone = Inr PNone"
    "p_parse_access_settings (PDict []) = Inr PNone"
    by (simp_all add: p_parse_access_settings_def)
  have dump: "p_dump_access_settings PNone = Inr PNone"
    "p_dump_access_settings (PAccessSettings u0 m0 c0) =
        Inr (PDict [(''user_ids'', u0), (''member_status'', m0), (''custom'', c0)])"
    by (simp_all add: p_dump_access_settings_def)
  have uids: "map_of d ''user_ids'' = None \<Longrightarrow> \<not> truthy (dict_get d ''user_ids'')"
    by (simp add: dict_get_def)
  have none: "p_parse_access_settings (PDict d) =
       Inr (PAccessSettings
             (if truthy (dict_get d ''user_ids'') then dict_get d ''user_ids'' else PList [])
             PNone (dict_get d ''custom''))"
    if "d \<noteq> []" "\<not> truthy (dict_get d ''member_status'')"
    using that by (simp add: p_parse_access_settings_def)
  have dec: "ChatMemberStatus_of (dict_get d ''member_status'') = Inr (PStatus m)
      \<and> truthy (dict_get d ''member_status'')"
    if "dict_get d ''member_status'' = PStr (status_value m)
        \<or> dict_get d ''member_status'' = PStatus m"
    using that by (auto simp: find_status status_value_nonempty)
  have some: "p_parse_access_settings (PDict d) =
       Inr (PAccessSettings
             (if truthy (dict_get d ''user_ids'') then dict_get d ''user_ids'' else PList [])
             (PStatus m) (dict_get d ''custom''))"
    if "d \<noteq> []" "dict_get d ''member_status'' = PStr (status_value m)
        \<or> dict_get d ''member_status'' = PStatus m"
    using that(1) dec [OF that(2)] by (simp add: p_parse_access_settings_def Let_def)
  have bad: "ChatMemberStatus_of v = Inl ValueError"
    if "\<forall>n. v \<noteq> PStr (status_value n) \<and> v \<noteq> PStatus n" for v
  proof (cases v)
    case (PStr s)
    with that have "\<forall>n. status_value n \<noteq> s" by auto
    from find_status_None [OF this] PStr show ?thesis by simp
  next
    case (PStatus n)
    with that show ?thesis by simp
  qed simp_all
  have fail: "p_parse_access_settings (PDict d) = Inl ValueError"
    if "d \<noteq> []" "truthy (dict_get d ''member_status'')"
       "\<forall>n. dict_get d ''member_status'' \<noteq> PStr (status_value n)
                     \<and> dict_get d ''member_status'' \<noteq> PStatus n"
    using that(1,2) bad [OF that(3)] by (simp add: p_parse_access_settings_def Let_def)
  show ?thesis
    using absent dump none some fail uids by (intro conjI impI; (elim conjE)?) simp_all
qed

theorem access_settings_parse_dump_witness:
  "p_parse_access_settings (PDict demo_raw_settings) =
     Inr (PAccessSettings (PList [PInt 1, PInt 2]) (PStatus ADMINISTRATOR) PNone)
   \<and> p_parse_access_settings (PDict [(''custom'', PInt 4)]) =
       Inr (PAccessSettings (PList []) PNone (PInt 4))
   \<and> p_parse_access_settings (PDict [(''member_status'', PStr ''boss'')]) = Inl ValueError"
proof -
  have d: "demo_raw_settings \<noteq> []"
    "dict_get demo_raw_settings ''member_status'' = PStr (status_value ADMINISTRATOR)"
    "truthy (dict_get demo_raw_settings ''user_ids'')"
    "dict_get demo_raw_settings ''user_ids'' = PList [PInt 1, PInt 2]"
    "dict_get demo_raw_settings ''custom'' = PNone"
    by (simp_all add: demo_raw_settings_def dict_get_def)
  have 1: "p_parse_access_settings (PDict demo_raw_settings) =
     Inr (PAccessSettings (PList [PInt 1, PInt 2]) (PStatus ADMINISTRATOR) PNone)"
    using access_settings_parse_dump [of demo_raw_settings ADMINISTRATOR] d by auto
  have e: "[(''custom'', PInt 4)] \<noteq> []"
    "\<not> truthy (dict_get [(''custom'', PInt 4)] ''member_status'')"
    "map_of [(''custom'', PInt 4)] ''user_ids'' = None"
    "dict_get [(''custom'', PInt 4)] ''custom'' = PInt 4"
    by (simp_all add: dict_get_def)
  have 2: "p_parse_access_settings (PDict [(''custom'', PInt 4)]) =
       Inr (PAccessSettings (PList []) PNone (PInt 4))"
    using access_settings_parse_dump [of "[(''custom'', PInt 4)]"] e by auto
  have boss: "status_value n \<noteq> ''boss'' \<and> ''boss'' \<noteq> status_value n" for n
    by (cases n) simp_all
  have f: "[(''member_status'', PStr ''boss'')] \<noteq> []"
    "truthy (dict_get [(''member_status'', PStr ''boss'')] ''member_status'')"
    "\<forall>n. dict_get [(''member_status'', PStr ''boss'')] ''member_status'' \<noteq> PStr (status_value n)
       \<and> dict_get [(''member_status'', PStr ''boss'')] ''member_status'' \<noteq> PStatus n"
    using boss by (auto simp: dict_get_def)
  have 3: "p_parse_access_settings (PDict [(''member_status'', PStr ''boss'')]) = Inl ValueError"
    using access_settings_parse_dump [of "[(''member_status'', PStr ''boss'')]"] f by blast
  from 1 2 3 show ?thesis by simp
qed

section \<open>Loading\<close>

lemma Stack_init_fresh:
  "Stack_init [(''_id'', PStr sid)] =
     Inr (vars_Stack \<lparr>stack_id = sid, intents = [], last_message_id = None,
                      access_settings = None\<rparr>)"
  by (simp add: Stack_init_def Stack_fields_def kwarg_def vars_Stack_def)

lemma load_stack_no_record:
  "storage w (p_stack_key p sid) = [] \<Longrightarrow>
     load_stack p w sid =
       Inr (alloc w (vars_Stack \<lparr>stack_id = sid, intents = [], last_message_id = None,
                                 access_settings = None\<rparr>))"
  by (simp add: load_stack_def get_data_def Stack_init_fresh)

text \<open>
  C5: when the store holds nothing under the stack key, \<open>load_stack\<close> does not fail: it
  returns a new stack object whose id is the given one, with an empty history, no last
  message id and no access settings. The store is not written.
\<close>

theorem load_stack_missing_record:
  "storage w (p_stack_key p sid) = [] \<Longrightarrow>
     load_stack p w sid =
       Inr (lim w,
            w\<lparr>heap := (heap w)(lim w :=
                 [(''_id'', PStr sid), (''intents'', PList []), (''last_message_id'', PNone),
                  (''access_settings'', PNone)]),
              lim := Suc (lim w)\<rparr>)"
  by (simp add: load_stack_no_record alloc_def vars_Stack_def)

theorem load_stack_missing_record_witness:
  "load_stack demo_proxy demo_world ''y'' =
     Inr (0, \<lparr>heap = (\<lambda>a. [])(0 :=
                 [(''_id'', PStr ''y''), (''intents'', PList []), (''last_message_id'', PNone),
                  (''access_settings'', PNone)]),
              lim = 1, storage = (\<lambda>key. [])\<rparr>)"
proof -
  have "storage demo_world (p_stack_key demo_proxy ''y'') = []"
    by (simp add: demo_world_def)
  from load_stack_missing_record [OF this] show ?thesis
    by (simp add: demo_world_def)
qed

lemma load_context_Inr:
  assumes "load_context p w iid = Inr (obj, w')"
  shows "\<exists>raw ident st d. map_of (storage w (p_context_key p iid)) ''state'' = Some raw
           \<and> as_str raw = Inr ident \<and> p_state p ident = Inr st
           \<and> Context_init (dict_set (storage w (p_context_key p iid)) ''state'' (PState st)) = Inr d
           \<and> (obj, w') = alloc w d"
  using assms
  by (auto simp: load_context_def get_data_def getitem_def Let_def
           split: if_splits option.splits sum.splits)

lemma p_state_error: "p_state p ident = Inl e \<Longrightarrow> \<exists>msg. e = UnknownState msg"
  by (auto simp: p_state_def Let_def split: option.splits)

lemma Context_init_error: "Context_init d = Inl e \<Longrightarrow> e = TypeError"
  by (auto simp: Context_init_def split: option.splits)

lemma as_str_error: "as_str v = Inl e \<Longrightarrow> e = AttributeError"
  by (cases v) auto

lemma load_context_UnknownIntent:
  "(\<exists>msg. load_context p w iid = Inl (UnknownIntent msg)) =
     (storage w (p_context_key p iid) = [])"
proof
  assume "\<exists>msg. load_context p w iid = Inl (UnknownIntent msg)"
  then obtain msg where m: "load_context p w iid = Inl (UnknownIntent msg)" ..
  show "storage w (p_context_key p iid) = []"
  proof (rule ccontr)
    assume ne: "storage w (p_context_key p iid) \<noteq> []"
    with m show False
      by (auto simp: load_context_def get_data_def getitem_def Let_def
               split: option.splits sum.splits
               dest: p_state_error Context_init_error as_str_error)
  qed
next
  assume "storage w (p_context_key p iid) = []"
  then show "\<exists>msg. load_context p w iid = Inl (UnknownIntent msg)"
    by (simp add: load_context_def get_data_def)
qed

lemma load_context_resolved:
  assumes "map_of (storage w (p_context_key p iid)) ''state'' = Some (PStr ident)"
    and "p_state p ident = Inr st"
    and "map_of (storage w (p_context_key p iid)) ''id'' = Some i"
  shows "load_context p w iid =
     Inr (alloc w ((''id'', i) # (''state'', PState st) #
            AList.delete ''id'' (AList.delete ''state'' (storage w (p_context_key p iid)))))"
proof -
  let ?d = "storage w (p_context_key p iid)"
  have ne: "?d \<noteq> []" using assms(1) by auto
  have "Context_init (dict_set ?d ''state'' (PState st)) =
      Inr ((''id'', i) # (''state'', PState st) # AList.delete ''id'' (AList.delete ''state'' ?d))"
    using assms(3)
    by (simp add: Context_init_def dict_set_def update_conv' delete_update_same)
  with ne assms(1,2) show ?thesis
    by (simp add: load_context_def get_data_def getitem_def)
qed

text \<open>
  C4, as amended: \<open>load_context\<close> fails with \<open>UnknownIntent\<close> exactly when the store
  holds nothing under the context key, and the message names the intent id. Whenever it
  returns, the store is as before, every object that existed is as before, and the
  result is one new object: the \<open>Context\<close> built from the stored fields with the state
  text replaced by the state it resolves to. It returns whenever the record has an id
  and a state text that resolves in the registry; when the state text does not resolve,
  the failure of state resolution, an \<open>UnknownState\<close>, is the outcome instead.
\<close>

theorem load_context_unknown_intent:
  "(\<exists>msg. load_context p w iid = Inl (UnknownIntent msg)) =
     (storage w (p_context_key p iid) = [])
   \<and> (storage w (p_context_key p iid) = [] \<longrightarrow>
        load_context p w iid =
          Inl (UnknownIntent (''Context not found for intent id: '' @ iid)))
   \<and> (\<forall>obj w'. load_context p w iid = Inr (obj, w') \<longrightarrow>
        storage w' = storage w \<and> obj = lim w \<and> lim w' = Suc (lim w)
        \<and> (\<forall>a. a < lim w \<longrightarrow> heap w' a = heap w a)
        \<and> (\<exists>raw ident st.
              map_of (storage w (p_context_key p iid)) ''state'' = Some raw
              \<and> as_str raw = Inr ident \<and> p_state p ident = Inr st
              \<and> Context_init (dict_set (storage w (p_context_key p iid)) ''state'' (PState st))
                  = Inr (heap w' obj)))
   \<and> (\<forall>ident st i.
        map_of (storage w (p_context_key p iid)) ''state'' = Some (PStr ident)
        \<and> p_state p ident = Inr st
        \<and> map_of (storage w (p_context_key p iid)) ''id'' = Some i \<longrightarrow>
        (\<exists>w'. load_context p w iid = Inr (lim w, w') \<and> storage w' = storage w
           \<and> heap w' (lim w) =
               (''id'', i) # (''state'', PState st) #
               AList.delete ''id'' (AList.delete ''state'' (storage w (p_context_key p iid)))))
   \<and> (\<forall>ident e.
        map_of (storage w (p_context_key p iid)) ''state'' = Some (PStr ident)
        \<and> p_state p ident = Inl e \<longrightarrow>
        load_context p w iid = Inl e \<and> (\<exists>msg. e = UnknownState msg))"
proof -
  let ?d = "storage w (p_context_key p iid)"
  have c1: "(\<exists>msg. load_context p w iid = Inl (UnknownIntent msg)) = (?d = [])"
    by (rule load_context_UnknownIntent)
  have c2: "?d = [] \<longrightarrow>
      load_context p w iid = Inl (UnknownIntent (''Context not found for intent id: '' @ iid))"
    by (simp add: load_context_def get_data_def)
  have c3: "\<forall>obj w'. load_context p w iid = Inr (obj, w') \<longrightarrow>
        storage w' = storage w \<and> obj = lim w \<and> lim w' = Suc (lim w)
        \<and> (\<forall>a. a < lim w \<longrightarrow> heap w' a = heap w a)
        \<and> (\<exists>raw ident st.
              map_of ?d ''state'' = Some raw
              \<and> as_str raw = Inr ident \<and> p_state p ident = Inr st
              \<and> Context_init (dict_set ?d ''state'' (PState st)) = Inr (heap w' obj))"
  proof (intro allI impI)
    fix obj w'
    assume r: "load_context p w iid = Inr (obj, w')"
    from load_context_Inr [OF r] obtain raw ident st d where
      d: "map_of ?d ''state'' = Some raw"
         "as_str raw = Inr ident" "p_state p ident = Inr st"
         "Context_init (dict_set ?d ''state'' (PState st)) = Inr d"
         "(obj, w') = alloc w d"
      by blast
    from d(5) have f: "storage w' = storage w" "obj = lim w" "lim w' = Suc (lim w)"
      "\<forall>a. a < lim w \<longrightarrow> heap w' a = heap w a" "heap w' obj = d"
      by (simp_all add: alloc_def)
    from d(1-4) f(5) have "\<exists>raw ident st.
              map_of ?d ''state'' = Some raw
              \<and> as_str raw = Inr ident \<and> p_state p ident = Inr st
              \<and> Context_init (dict_set ?d ''state'' (PState st)) = Inr (heap w' obj)"
      by auto
    with f(1-4) show "storage w' = storage w \<and> obj = lim w \<and> lim w' = Suc (lim w)
        \<and> (\<forall>a. a < lim w \<longrightarrow> heap w' a = heap w a)
        \<and> (\<exists>raw ident st.
              map_of ?d ''state'' = Some raw
              \<and> as_str raw = Inr ident \<and> p_state p ident = Inr st
              \<and> Context_init (dict_set ?d ''state'' (PState st)) = Inr (heap w' obj))"
      by (intro conjI)
  qed
  have c4: "\<forall>ident st i.
        map_of ?d ''state'' = Some (PStr ident) \<and> p_state p ident = Inr st
        \<and> map_of ?d ''id'' = Some i \<longrightarrow>
        (\<exists>w'. load_context p w iid = Inr (lim w, w') \<and> storage w' = storage w
           \<and> heap w' (lim w) =
               (''id'', i) # (''state'', PState st) #
               AList.delete ''id'' (AList.delete ''state'' ?d))"
  proof (intro allI impI)
    fix ident st i
    assume "map_of ?d ''state'' = Some (PStr ident) \<and> p_state p ident = Inr st
        \<and> map_of ?d ''id'' = Some i"
    then have "load_context p w iid =
       Inr (alloc w ((''id'', i) # (''state'', PState st) #
              AList.delete ''id'' (AList.delete ''state'' ?d)))"
      by (simp add: load_context_resolved)
    then show "\<exists>w'. load_context p w iid = Inr (lim w, w') \<and> storage w' = storage w
           \<and> heap w' (lim w) =
               (''id'', i) # (''state'', PState st) #
               AList.delete ''id'' (AList.delete ''state'' ?d)"
      by (simp add: alloc_def)
  qed
  have c5: "\<forall>ident e. map_of ?d ''state'' = Some (PStr ident) \<and> p_state p ident = Inl e \<longrightarrow>
        load_context p w iid = Inl e \<and> (\<exists>msg. e = UnknownState msg)"
  proof (intro allI impI)
    fix ident e
    assume a: "map_of ?d ''state'' = Some (PStr ident) \<and> p_state p ident = Inl e"
    then have "?d \<noteq> []" by auto
    with a have "load_context p w iid = Inl e"
      by (simp add: load_context_def get_data_def getitem_def)
    with a p_state_error [of p ident e]
    show "load_context p w iid = Inl e \<and> (\<exists>msg. e = UnknownState msg)"
      by simp
  qed
  from c1 c2 c3 c4 c5 show ?thesis by (intro conjI)
qed

text \<open>
  C4, without the proviso on the state text: a \<open>Context\<close> whenever a record exists.
  That fails. The record below exists, and its state text names a group the registry
  does not have: the call fails with \<open>UnknownState\<close> and returns no \<open>Context\<close>.
\<close>

theorem load_context_unresolved_counterexample:
  "storage demo_unresolved_world (p_context_key demo_proxy ''i2'') =
     [(''id'', PStr ''i2''), (''state'', PStr ''Other:step1'')]
   \<and> load_context demo_proxy demo_unresolved_world ''i2'' =
       Inl (UnknownState ''Unknown state group Other'')"
  by (simp add: load_context_def get_data_def getitem_def p_state_def str_partition_def
        demo_unresolved_world_def demo_unresolved_record_def demo_proxy_def)

lemma demo_resolves: "p_state demo_proxy ''Main:step1'' = Inr stateA"
  by (simp add: p_state_def str_partition_def demo_proxy_def stateA_def)

theorem load_context_unknown_intent_witness:
  "load_context demo_proxy demo_stored_world ''x'' =
     Inl (UnknownIntent ''Context not found for intent id: x'')
   \<and> (\<exists>w'. load_context demo_proxy demo_stored_world ''i1'' = Inr (0, w')
         \<and> storage w' = storage demo_stored_world
         \<and> heap w' 0 =
             [(''id'', PStr ''i1''), (''state'', PState stateA),
              (''dialog_data'', PDict [(''k'', PInt 3)])])
   \<and> load_context demo_proxy demo_unresolved_world ''i2'' =
       Inl (UnknownState ''Unknown state group Other'')"
proof -
  have n: "map_of (storage demo_unresolved_world (p_context_key demo_proxy ''i2'')) ''state''
       = Some (PStr ''Other:step1'')
     \<and> p_state demo_proxy ''Other:step1'' = Inl (UnknownState ''Unknown state group Other'')"
    by (simp add: demo_unresolved_world_def demo_unresolved_record_def p_state_def
          str_partition_def demo_proxy_def)
  note v = load_context_unknown_intent [of demo_proxy demo_unresolved_world "''i2''",
      THEN conjunct2, THEN conjunct2, THEN conjunct2, THEN conjunct2, rule_format,
      of "''Other:step1''" "UnknownState ''Unknown state group Other''"]
  from v [OF n]
  have 3: "load_context demo_proxy demo_unresolved_world ''i2'' =
       Inl (UnknownState ''Unknown state group Other'')"
    by (rule conjunct1)
  have kx: "p_context_key demo_proxy ''x'' \<noteq> p_context_key demo_proxy ''i1''"
    "p_context_key demo_proxy ''x'' \<noteq> p_stack_key demo_proxy ''s''"
    by (simp_all add: p_context_key_def p_stack_key_def)
  then have x: "storage demo_stored_world (p_context_key demo_proxy ''x'') = []"
    by (simp add: demo_stored_world_def)
  note t = load_context_unknown_intent [of demo_proxy demo_stored_world "''x''"]
  from t [THEN conjunct2, THEN conjunct1] x
  have 1: "load_context demo_proxy demo_stored_world ''x'' =
     Inl (UnknownIntent ''Context not found for intent id: x'')"
    by simp
  have i: "storage demo_stored_world (p_context_key demo_proxy ''i1'') = demo_context_record"
    by (simp add: demo_stored_world_def)
  have r: "map_of demo_context_record ''state'' = Some (PStr ''Main:step1'')
     \<and> p_state demo_proxy ''Main:step1'' = Inr stateA
     \<and> map_of demo_context_record ''id'' = Some (PStr ''i1'')"
    using demo_resolves by (simp add: demo_context_record_def)
  have d: "AList.delete ''id'' (AList.delete ''state'' demo_context_record) =
       [(''dialog_data'', PDict [(''k'', PInt 3)])]"
    by (simp add: demo_context_record_def AList.delete_eq)
  have l: "lim demo_stored_world = 0"
    by (simp add: demo_stored_world_def)
  note u = load_context_unknown_intent [of demo_proxy demo_stored_world "''i1''",
      THEN conjunct2, THEN conjunct2, THEN conjunct2, THEN conjunct1, rule_format,
      of "''Main:step1''" stateA "PStr ''i1''"]
  from u [unfolded i, OF r]
  have 2: "\<exists>w'. load_context demo_proxy demo_stored_world ''i1'' = Inr (0, w')
         \<and> storage w' = storage demo_stored_world
         \<and> heap w' 0 =
             [(''id'', PStr ''i1''), (''state'', PState stateA),
              (''dialog_data'', PDict [(''k'', PInt 3)])]"
    unfolding d l .
  from 1 2 3 show ?thesis by (intro conjI)
qed

section \<open>Saving and loading again\<close>

lemma save_context_typed:
  assumes "a < lim w" and "heap w a = vars_Context c"
  shows "save_context p w (Some a) =
     Inr (w\<lparr>heap := (heap w)(lim w := flat_Context c), lim := Suc (lim w),
            storage := (storage w)(p_context_key p (intent_id c) := flat_Context c)\<rparr>)"
proof -
  have ne: "a \<noteq> lim w" using assms(1) by simp
  have cp: "copy_dict w (vars_of a) =
      (lim w, w\<lparr>heap := (heap w)(lim w := vars_Context c), lim := Suc (lim w)\<rparr>)"
    using assms(2) by (simp add: copy_dict_def vars_of_def alloc_def)
  have fl: "dict_set (vars_Context c) ''state'' (PStr (state (ctx_state c))) = flat_Context c"
    by (simp add: dict_set_def vars_Context_def flat_Context_def)
  have gi: "getitem (vars_Context c) ''state'' = Inr (PState (ctx_state c))"
    by (simp add: getitem_def vars_Context_def)
  have id: "Context_id (vars_Context c) = Inr (intent_id c)"
    by (simp add: Context_id_def vars_Context_def)
  show ?thesis
    using ne assms(2)
    by (simp add: save_context_def cp gi setitem_def fl id set_data_def)
qed

text \<open>
  A state of the registry is canonical when it is a member of the group that its text
  names and the texts of that group's members are distinct. Resolving the text of such a
  state returns that very state.
\<close>

lemma scan_states_member:
  "st \<in> set ss \<Longrightarrow> distinct (map state ss) \<Longrightarrow> scan_states ss (state st) = Some st"
  by (induction ss) (auto simp: image_iff)

lemma registered_state_is_canonical:
  assumes "state_groups p (fst (str_partition (state st) CHR '':'')) = Some ss"
    and "st \<in> set ss" and "distinct (map state ss)"
  shows "p_state p (state st) = Inr st"
  using assms by (simp add: p_state_def scan_states_member)

lemma unflat_Context:
  assumes "distinct (map fst (vars_Context c))"
  shows "(''id'', PStr (intent_id c)) # (''state'', PState (ctx_state c)) #
           AList.delete ''id'' (AList.delete ''state'' (flat_Context c)) = vars_Context c"
proof -
  from assms have "''id'' \<notin> fst ` set (extra c)" "''state'' \<notin> fst ` set (extra c)"
    by (auto simp: vars_Context_def)
  then show ?thesis
    by (simp add: flat_Context_def vars_Context_def)
qed

text \<open>
  C1: take a context object of the declared type whose attribute names are distinct and
  whose state is a canonical instance of the registry: the registry has a group under
  the name before the first \<open>:\<close> of the state's text, the state is a member of that
  group, and the members of the group have distinct texts. Then \<open>save_context\<close>
  succeeds, \<open>load_context\<close> with the same intent id succeeds on the resulting world,
  and the loaded object has the attributes of the original: the same id, the same state
  object, the same other fields.
\<close>

theorem context_round_trip:
  assumes "a < lim w" and "heap w a = vars_Context c"
    and "distinct (map fst (vars_Context c))"
    and "state_groups p (fst (str_partition (state (ctx_state c)) CHR '':'')) = Some ss"
    and "ctx_state c \<in> set ss"
    and "distinct (map state ss)"
  shows "\<exists>w1 b w2. save_context p w (Some a) = Inr w1
           \<and> load_context p w1 (intent_id c) = Inr (b, w2)
           \<and> heap w2 b = vars_Context c
           \<and> map_of (heap w2 b) ''id'' = Some (PStr (intent_id c))
           \<and> map_of (heap w2 b) ''state'' = Some (PState (ctx_state c))
           \<and> AList.delete ''id'' (AList.delete ''state'' (heap w2 b)) = extra c"
proof -
  let ?w1 = "w\<lparr>heap := (heap w)(lim w := flat_Context c), lim := Suc (lim w),
            storage := (storage w)(p_context_key p (intent_id c) := flat_Context c)\<rparr>"
  have s: "save_context p w (Some a) = Inr ?w1"
    by (rule save_context_typed [OF assms(1,2)])
  have st: "storage ?w1 (p_context_key p (intent_id c)) = flat_Context c" by simp
  have canonical: "p_state p (state (ctx_state c)) = Inr (ctx_state c)"
    by (rule registered_state_is_canonical [OF assms(4,5,6)])
  have "load_context p ?w1 (intent_id c) =
      Inr (alloc ?w1 ((''id'', PStr (intent_id c)) # (''state'', PState (ctx_state c)) #
            AList.delete ''id'' (AList.delete ''state'' (flat_Context c))))"
    using load_context_resolved [of ?w1 p "intent_id c" "state (ctx_state c)" "ctx_state c"
        "PStr (intent_id c)"] canonical
    unfolding st by (simp add: flat_Context_def)
  then have l: "load_context p ?w1 (intent_id c) = Inr (alloc ?w1 (vars_Context c))"
    by (simp add: unflat_Context [OF assms(3)])
  have e: "AList.delete ''id'' (AList.delete ''state'' (vars_Context c)) = extra c"
    using assms(3) by (auto simp: vars_Context_def)
  have v: "map_of (vars_Context c) ''id'' = Some (PStr (intent_id c))"
    "map_of (vars_Context c) ''state'' = Some (PState (ctx_state c))"
    by (simp_all add: vars_Context_def)
  obtain b w2 where bw: "alloc ?w1 (vars_Context c) = (b, w2)" by (cases "alloc ?w1 (vars_Context c)")
  then have "heap w2 b = vars_Context c" by (auto simp: alloc_def)
  with s l bw e v show ?thesis by (intro exI [of _ ?w1] exI [of _ b] exI [of _ w2]) simp
qed

lemma demo_second_context_distinct:
  "distinct (map fst (vars_Context demo_second_context))"
  by (simp add: vars_Context_def demo_second_context_def)

text \<open>
  The context of the example is in \<open>stateB\<close>, the second member of its group: the scan
  has to pass over \<open>stateA\<close> to return it.
\<close>

theorem context_round_trip_witness:
  "\<exists>w1 b w2. save_context demo_proxy demo_second_world (Some 0) = Inr w1
     \<and> load_context demo_proxy w1 ''i7'' = Inr (b, w2)
     \<and> heap w2 b =
         [(''id'', PStr ''i7''), (''state'', PState stateB), (''start_data'', PNone),
          (''dialog_data'', PDict [(''k'', PInt 3)])]
     \<and> map_of (heap w2 b) ''state'' = Some (PState stateB)"
proof -
  have h: "0 < lim demo_second_world"
    "heap demo_second_world 0 = vars_Context demo_second_context"
    by (simp_all add: demo_second_world_def)
  have s: "ctx_state demo_second_context = stateB"
    by (simp add: demo_second_context_def)
  have g: "state_groups demo_proxy
      (fst (str_partition (state (ctx_state demo_second_context)) CHR '':'')) =
      Some [stateA, stateB]"
    unfolding s by (simp add: demo_proxy_def stateB_def str_partition_def)
  have m: "ctx_state demo_second_context \<in> set [stateA, stateB]"
    unfolding s by simp
  have t: "distinct (map state [stateA, stateB])"
    by (simp add: stateA_def stateB_def)
  have v: "vars_Context demo_second_context =
      [(''id'', PStr ''i7''), (''state'', PState stateB), (''start_data'', PNone),
       (''dialog_data'', PDict [(''k'', PInt 3)])]"
    by (simp add: vars_Context_def demo_second_context_def)
  have i: "intent_id demo_second_context = ''i7''"
    by (simp add: demo_second_context_def)
  from context_round_trip [OF h demo_second_context_distinct g m t]
  obtain w1 b w2 where
    x: "save_context demo_proxy demo_second_world (Some 0) = Inr w1"
      "load_context demo_proxy w1 (intent_id demo_second_context) = Inr (b, w2)"
      "heap w2 b = vars_Context demo_second_context"
      "map_of (heap w2 b) ''state'' = Some (PState (ctx_state demo_second_context))"
    by (elim exE conjE)
  from x(1) x(2) [unfolded i] x(3) [unfolded v] x(4) [unfolded s]
  have "save_context demo_proxy demo_second_world (Some 0) = Inr w1
     \<and> load_context demo_proxy w1 ''i7'' = Inr (b, w2)
     \<and> heap w2 b =
         [(''id'', PStr ''i7''), (''state'', PState stateB), (''start_data'', PNone),
          (''dialog_data'', PDict [(''k'', PInt 3)])]
     \<and> map_of (heap w2 b) ''state'' = Some (PState stateB)"
    by (intro conjI)
  then show ?thesis by (intro exI)
qed

lemma dump_typed: "p_dump_access_settings (val_settings acc) = Inr (dumped_settings acc)"
  by (cases acc)
    (simp_all add: p_dump_access_settings_def val_settings_def dumped_settings_def
       obj_AccessSettings_def)

lemma parse_dumped: "p_parse_access_settings (dumped_settings acc) = Inr (val_settings acc)"
proof (cases acc)
  case None
  then show ?thesis
    by (simp add: p_parse_access_settings_def dumped_settings_def val_settings_def)
next
  case (Some a)
  show ?thesis
  proof (cases "member_status a")
    case None
    with Some show ?thesis
      by (simp add: p_parse_access_settings_def dumped_settings_def val_settings_def
            obj_AccessSettings_def dict_get_def)
  next
    case (Some m)
    with \<open>acc = Some a\<close> show ?thesis
      by (simp add: p_parse_access_settings_def dumped_settings_def val_settings_def
            obj_AccessSettings_def dict_get_def status_value_nonempty Let_def)
  qed
qed

lemma vars_Stack_alt:
  "vars_Stack s =
     [(''_id'', PStr (stack_id s)),
      (''intents'', PList (intents s)),
      (''last_message_id'', (case last_message_id s of None \<Rightarrow> PNone | Some i \<Rightarrow> PInt i)),
      (''access_settings'', val_settings (access_settings s))]"
  by (simp add: vars_Stack_def val_settings_def)

lemma logically_empty_typed:
  "logically_empty (vars_Stack s) =
     Inr (intents s = [] \<and> (last_message_id s = None \<or> last_message_id s = Some 0))"
  by (auto simp: logically_empty_def Stack_empty_def getattr_obj_def vars_Stack_def
           split: option.splits)

lemma Stack_id_typed: "Stack_id (vars_Stack s) = Inr (stack_id s)"
  by (simp add: Stack_id_def vars_Stack_def)

lemma save_stack_tombstoned:
  assumes "heap w a = vars_Stack s"
    and "intents s = []" and "last_message_id s = None \<or> last_message_id s = Some 0"
  shows "save_stack p w (Some a) =
     Inr (w\<lparr>storage := (storage w)(p_stack_key p (stack_id s) := [])\<rparr>)"
  using assms
  by (simp add: save_stack_def logically_empty_typed Stack_id_typed set_data_def)

lemma save_stack_populated:
  assumes "a < lim w" and "heap w a = vars_Stack s"
    and "\<not> (intents s = [] \<and> (last_message_id s = None \<or> last_message_id s = Some 0))"
  shows "save_stack p w (Some a) =
     Inr (w\<lparr>heap := (heap w)(lim w := flat_Stack s), lim := Suc (lim w),
            storage := (storage w)(p_stack_key p (stack_id s) := flat_Stack s)\<rparr>)"
proof -
  have ne: "a \<noteq> lim w" using assms(1) by simp
  have cp: "copy_dict w (vars_of a) =
      (lim w, w\<lparr>heap := (heap w)(lim w := vars_Stack s), lim := Suc (lim w)\<rparr>)"
    using assms(2) by (simp add: copy_dict_def vars_of_def alloc_def)
  have ga: "getattr_obj (vars_Stack s) ''access_settings'' = Inr (val_settings (access_settings s))"
    by (simp add: getattr_obj_def vars_Stack_alt)
  have fl: "dict_set (vars_Stack s) ''access_settings'' (dumped_settings (access_settings s))
      = flat_Stack s"
    by (simp add: dict_set_def vars_Stack_alt flat_Stack_def)
  have le: "logically_empty (vars_Stack s) = Inr False"
    using assms(3) by (simp add: logically_empty_typed)
  show ?thesis
    using ne assms(2)
    by (simp add: save_stack_def le cp ga dump_typed setitem_def fl Stack_id_typed set_data_def)
qed

lemma load_stack_flat:
  assumes "storage w (p_stack_key p sid) = flat_Stack s"
  shows "load_stack p w sid = Inr (alloc w (vars_Stack s))"
proof -
  have pop: "dict_pop (flat_Stack s) ''access_settings'' =
      Inr (dumped_settings (access_settings s),
           [(''_id'', PStr (stack_id s)),
            (''intents'', PList (intents s)),
            (''last_message_id'',
               (case last_message_id s of None \<Rightarrow> PNone | Some i \<Rightarrow> PInt i))])"
    by (simp add: dict_pop_def flat_Stack_def AList.delete_eq)
  have init: "Stack_init ((''access_settings'', val_settings (access_settings s)) #
           [(''_id'', PStr (stack_id s)),
            (''intents'', PList (intents s)),
            (''last_message_id'',
               (case last_message_id s of None \<Rightarrow> PNone | Some i \<Rightarrow> PInt i))]) =
        Inr (vars_Stack s)"
    by (simp add: Stack_init_def Stack_fields_def kwarg_def vars_Stack_alt)
  have ne: "flat_Stack s \<noteq> []" by (simp add: flat_Stack_def)
  show ?thesis
    using ne by (simp add: load_stack_def get_data_def assms pop parse_dumped init)
qed

text \<open>
  C10: a stored stack record that is not empty and has no field \<open>access_settings\<close> makes
  \<open>load_stack\<close> fail with the \<open>KeyError\<close> of the missing key; hence whenever a
  non-empty record loads, it had the field.
\<close>

theorem load_stack_needs_access_settings_field:
  "(storage w (p_stack_key p sid) \<noteq> []
      \<and> map_of (storage w (p_stack_key p sid)) ''access_settings'' = None \<longrightarrow>
        load_stack p w sid = Inl (KeyError ''access_settings''))
   \<and> (storage w (p_stack_key p sid) \<noteq> [] \<and> (\<exists>r. load_stack p w sid = Inr r) \<longrightarrow>
        (\<exists>v. map_of (storage w (p_stack_key p sid)) ''access_settings'' = Some v))"
proof -
  have 1: "load_stack p w sid = Inl (KeyError ''access_settings'')"
    if "storage w (p_stack_key p sid) \<noteq> []"
       "map_of (storage w (p_stack_key p sid)) ''access_settings'' = None"
    using that by (simp add: load_stack_def get_data_def dict_pop_def)
  then show ?thesis by (cases "map_of (storage w (p_stack_key p sid)) ''access_settings''") auto
qed

theorem load_stack_needs_access_settings_field_witness:
  "storage demo_stored_world (p_stack_key demo_proxy ''s'') = demo_stack_record
   \<and> demo_stack_record \<noteq> []
   \<and> load_stack demo_proxy demo_stored_world ''s'' = Inl (KeyError ''access_settings'')
   \<and> load_stack demo_proxy demo_full_world ''s'' =
       Inr (0, demo_full_world\<lparr>heap := (heap demo_full_world)(0 := vars_Stack demo_stack),
                 lim := 1\<rparr>)
   \<and> (\<exists>v. map_of (storage demo_full_world (p_stack_key demo_proxy ''s''))
           ''access_settings'' = Some v)"
proof -
  have fs: "storage demo_full_world (p_stack_key demo_proxy ''s'') = flat_Stack demo_stack"
    by (simp add: demo_full_world_def)
  have fl: "load_stack demo_proxy demo_full_world ''s'' =
       Inr (0, demo_full_world\<lparr>heap := (heap demo_full_world)(0 := vars_Stack demo_stack),
                 lim := 1\<rparr>)"
    using load_stack_flat [OF fs] by (simp add: alloc_def demo_full_world_def)
  have fn: "storage demo_full_world (p_stack_key demo_proxy ''s'') \<noteq> []"
    unfolding fs by (simp add: flat_Stack_def)
  from fl have "\<exists>r. load_stack demo_proxy demo_full_world ''s'' = Inr r" by (rule exI)
  with fn have "storage demo_full_world (p_stack_key demo_proxy ''s'') \<noteq> []
      \<and> (\<exists>r. load_stack demo_proxy demo_full_world ''s'' = Inr r)" ..
  from load_stack_needs_access_settings_field
    [of demo_full_world demo_proxy "''s''", THEN conjunct2, rule_format, OF this]
  have fv: "\<exists>v. map_of (storage demo_full_world (p_stack_key demo_proxy ''s''))
           ''access_settings'' = Some v" .
  have k: "p_stack_key demo_proxy ''s'' \<noteq> p_context_key demo_proxy ''i1''"
    by (simp add: p_stack_key_def p_context_key_def)
  have s: "storage demo_stored_world (p_stack_key demo_proxy ''s'') = demo_stack_record"
    using k by (simp add: demo_stored_world_def)
  have d: "demo_stack_record \<noteq> []" "map_of demo_stack_record ''access_settings'' = None"
    by (simp_all add: demo_stack_record_def)
  from load_stack_needs_access_settings_field [of demo_stored_world demo_proxy "''s''"] s d
  have "load_stack demo_proxy demo_stored_world ''s'' = Inl (KeyError ''access_settings'')"
    by simp
  with s d(1) fl fv show ?thesis by (intro conjI)
qed

text \<open>
  C2, as amended: take a stack object of the declared type that has a non-empty history
  or a last message id other than \<open>0\<close>. Then \<open>save_stack\<close> succeeds, \<open>load_stack\<close>
  with the same id succeeds on the resulting world, and the loaded object has the
  attributes of the original; absent access settings load as \<open>None\<close>, present ones as
  an equal object.
\<close>

theorem stack_round_trip:
  assumes "a < lim w" and "heap w a = vars_Stack s"
    and "intents s \<noteq> [] \<or> (\<exists>m. last_message_id s = Some m \<and> m \<noteq> 0)"
  shows "\<exists>w1 b w2. save_stack p w (Some a) = Inr w1
           \<and> load_stack p w1 (stack_id s) = Inr (b, w2)
           \<and> heap w2 b = vars_Stack s
           \<and> (access_settings s = None \<longrightarrow> map_of (heap w2 b) ''access_settings'' = Some PNone)
           \<and> (\<forall>acc. access_settings s = Some acc \<longrightarrow>
                 map_of (heap w2 b) ''access_settings'' = Some (obj_AccessSettings acc))"
proof -
  let ?w1 = "w\<lparr>heap := (heap w)(lim w := flat_Stack s), lim := Suc (lim w),
            storage := (storage w)(p_stack_key p (stack_id s) := flat_Stack s)\<rparr>"
  from assms(3)
  have "\<not> (intents s = [] \<and> (last_message_id s = None \<or> last_message_id s = Some 0))"
    by auto
  from save_stack_populated [OF assms(1,2) this]
  have sv: "save_stack p w (Some a) = Inr ?w1" .
  have "storage ?w1 (p_stack_key p (stack_id s)) = flat_Stack s" by simp
  from load_stack_flat [OF this]
  have ld: "load_stack p ?w1 (stack_id s) = Inr (alloc ?w1 (vars_Stack s))" .
  obtain b w2 where bw: "alloc ?w1 (vars_Stack s) = (b, w2)"
    by (cases "alloc ?w1 (vars_Stack s)")
  then have h: "heap w2 b = vars_Stack s" by (auto simp: alloc_def)
  have acc: "map_of (vars_Stack s) ''access_settings'' = Some (val_settings (access_settings s))"
    by (simp add: vars_Stack_alt)
  from sv ld bw h acc show ?thesis
    by (intro exI [of _ ?w1] exI [of _ b] exI [of _ w2]) (simp add: val_settings_def)
qed

lemma demo_stack_settings:
  "access_settings demo_stack = Some demo_settings"
  "obj_AccessSettings demo_settings =
     PAccessSettings (PList [PInt 1, PInt 2]) (PStatus ADMINISTRATOR) PNone"
  by (simp_all add: demo_stack_def obj_AccessSettings_def demo_settings_def)

lemma demo_stack_object:
  "0 < lim demo_stack_world" "heap demo_stack_world 0 = vars_Stack demo_stack"
  by (simp_all add: demo_stack_world_def)

lemma demo_stack_populated:
  "intents demo_stack \<noteq> [] \<or> (\<exists>m. last_message_id demo_stack = Some m \<and> m \<noteq> 0)"
  by (simp add: demo_stack_def)

theorem stack_round_trip_witness:
  "(\<exists>w1 b w2. save_stack demo_proxy demo_stack_world (Some 0) = Inr w1
     \<and> load_stack demo_proxy w1 ''s'' = Inr (b, w2)
     \<and> heap w2 b = vars_Stack demo_stack
     \<and> map_of (heap w2 b) ''access_settings'' =
         Some (PAccessSettings (PList [PInt 1, PInt 2]) (PStatus ADMINISTRATOR) PNone))
   \<and> (\<exists>w1 b w2. save_stack demo_proxy demo_bare_world (Some 0) = Inr w1
     \<and> load_stack demo_proxy w1 ''t'' = Inr (b, w2)
     \<and> heap w2 b = vars_Stack demo_bare_stack
     \<and> map_of (heap w2 b) ''access_settings'' = Some PNone)"
proof -
  have bo: "0 < lim demo_bare_world" "heap demo_bare_world 0 = vars_Stack demo_bare_stack"
    by (simp_all add: demo_bare_world_def)
  have bp: "intents demo_bare_stack \<noteq> []
      \<or> (\<exists>m. last_message_id demo_bare_stack = Some m \<and> m \<noteq> 0)"
    by (simp add: demo_bare_stack_def)
  have bi: "stack_id demo_bare_stack = ''t''" "access_settings demo_bare_stack = None"
    by (simp_all add: demo_bare_stack_def)
  from stack_round_trip [OF bo bp, of demo_proxy]
  obtain v1 c v2 where
    q: "save_stack demo_proxy demo_bare_world (Some 0) = Inr v1"
      "load_stack demo_proxy v1 (stack_id demo_bare_stack) = Inr (c, v2)"
      "heap v2 c = vars_Stack demo_bare_stack"
      "access_settings demo_bare_stack = None \<longrightarrow>
         map_of (heap v2 c) ''access_settings'' = Some PNone"
    by (elim exE conjE)
  from q(4) [rule_format, OF bi(2)] q(1) q(2) [unfolded bi(1)] q(3)
  have "save_stack demo_proxy demo_bare_world (Some 0) = Inr v1
     \<and> load_stack demo_proxy v1 ''t'' = Inr (c, v2)
     \<and> heap v2 c = vars_Stack demo_bare_stack
     \<and> map_of (heap v2 c) ''access_settings'' = Some PNone"
    by (intro conjI)
  then have 2: "\<exists>w1 b w2. save_stack demo_proxy demo_bare_world (Some 0) = Inr w1
     \<and> load_stack demo_proxy w1 ''t'' = Inr (b, w2)
     \<and> heap w2 b = vars_Stack demo_bare_stack
     \<and> map_of (heap w2 b) ''access_settings'' = Some PNone"
    by (intro exI)
  have i: "stack_id demo_stack = ''s''"
    by (simp add: demo_stack_def)
  from stack_round_trip [OF demo_stack_object demo_stack_populated, of demo_proxy]
  obtain w1 b w2 where
    r: "save_stack demo_proxy demo_stack_world (Some 0) = Inr w1"
      "load_stack demo_proxy w1 (stack_id demo_stack) = Inr (b, w2)"
      "heap w2 b = vars_Stack demo_stack"
      "\<forall>acc. access_settings demo_stack = Some acc \<longrightarrow>
         map_of (heap w2 b) ''access_settings'' = Some (obj_AccessSettings acc)"
    by (elim exE conjE)
  from r(4) [rule_format, OF demo_stack_settings(1)]
  have "map_of (heap w2 b) ''access_settings'' = Some (obj_AccessSettings demo_settings)" .
  then have "map_of (heap w2 b) ''access_settings'' =
      Some (PAccessSettings (PList [PInt 1, PInt 2]) (PStatus ADMINISTRATOR) PNone)"
    unfolding demo_stack_settings(2) .
  with r(1) r(2) [unfolded i] r(3)
  have "save_stack demo_proxy demo_stack_world (Some 0) = Inr w1
     \<and> load_stack demo_proxy w1 ''s'' = Inr (b, w2)
     \<and> heap w2 b = vars_Stack demo_stack
     \<and> map_of (heap w2 b) ''access_settings'' =
         Some (PAccessSettings (PList [PInt 1, PInt 2]) (PStatus ADMINISTRATOR) PNone)"
    by (intro conjI)
  then have 1: "\<exists>w1 b w2. save_stack demo_proxy demo_stack_world (Some 0) = Inr w1
     \<and> load_stack demo_proxy w1 ''s'' = Inr (b, w2)
     \<and> heap w2 b = vars_Stack demo_stack
     \<and> map_of (heap w2 b) ''access_settings'' =
         Some (PAccessSettings (PList [PInt 1, PInt 2]) (PStatus ADMINISTRATOR) PNone)"
    by (intro exI)
  from 1 2 show ?thesis ..
qed

text \<open>
  C2, with every value other than \<open>None\<close> counted as a set last message id: every such
  stack comes back equal. That fails. The stack below has an empty history and the last
  message id \<open>0\<close>: saving it writes the empty record, and loading gives a fresh stack
  whose last message id is \<open>None\<close>.
\<close>

theorem stack_round_trip_zero_counterexample:
  "vars_Stack demo_zero_stack =
     [(''_id'', PStr ''s''), (''intents'', PList []), (''last_message_id'', PInt 0),
      (''access_settings'', PNone)]
   \<and> heap demo_zero_world 0 = vars_Stack demo_zero_stack
   \<and> save_stack demo_proxy demo_zero_world (Some 0) =
       Inr (set_data demo_zero_world (p_stack_key demo_proxy ''s'') [])
   \<and> load_stack demo_proxy (set_data demo_zero_world (p_stack_key demo_proxy ''s'') []) ''s'' =
       Inr (alloc (set_data demo_zero_world (p_stack_key demo_proxy ''s'') [])
              [(''_id'', PStr ''s''), (''intents'', PList []), (''last_message_id'', PNone),
               (''access_settings'', PNone)])
   \<and> [(''_id'', PStr ''s''), (''intents'', PList []), (''last_message_id'', PNone),
       (''access_settings'', PNone)] \<noteq> vars_Stack demo_zero_stack"
proof -
  have v: "vars_Stack demo_zero_stack =
     [(''_id'', PStr ''s''), (''intents'', PList []), (''last_message_id'', PInt 0),
      (''access_settings'', PNone)]"
    by (simp add: vars_Stack_def demo_zero_stack_def)
  have h: "heap demo_zero_world 0 = vars_Stack demo_zero_stack"
    by (simp add: demo_zero_world_def)
  have s: "save_stack demo_proxy demo_zero_world (Some 0) =
       Inr (set_data demo_zero_world (p_stack_key demo_proxy ''s'') [])"
    by (simp add: save_stack_def logically_empty_def Stack_empty_def getattr_obj_def
          Stack_id_def vars_Stack_def demo_zero_world_def demo_zero_stack_def)
  have l: "load_stack demo_proxy (set_data demo_zero_world (p_stack_key demo_proxy ''s'') [])
       ''s'' =
       Inr (alloc (set_data demo_zero_world (p_stack_key demo_proxy ''s'') [])
              [(''_id'', PStr ''s''), (''intents'', PList []), (''last_message_id'', PNone),
               (''access_settings'', PNone)])"
    by (simp add: load_stack_def get_data_def set_data_def Stack_init_def Stack_fields_def
          kwarg_def)
  have n: "[(''_id'', PStr ''s''), (''intents'', PList []), (''last_message_id'', PNone),
       (''access_settings'', PNone)] \<noteq> vars_Stack demo_zero_stack"
    unfolding v by simp
  from v h s l n show ?thesis by (intro conjI)
qed

text \<open>
  C6, as amended: for a stack object with an empty history and no last message id
  (\<open>None\<close>, and also \<open>0\<close>, which the truth test takes for none), \<open>save_stack\<close> writes
  the empty record under the stack key and nothing else, whatever the access settings
  are; loading that id afterwards gives a fresh stack whose access settings are
  \<open>None\<close>. For a stack with a non-empty history or a last message id other than \<open>0\<close>
  the record written is not empty: it is the flattened stack.
\<close>

theorem empty_stack_tombstoned:
  assumes "a < lim w" and "heap w a = vars_Stack s"
  shows "(intents s = [] \<and> (last_message_id s = None \<or> last_message_id s = Some 0) \<longrightarrow>
           save_stack p w (Some a) =
             Inr (w\<lparr>storage := (storage w)(p_stack_key p (stack_id s) := [])\<rparr>)
           \<and> (\<exists>b w2. load_stack p (w\<lparr>storage := (storage w)(p_stack_key p (stack_id s) := [])\<rparr>)
                         (stack_id s) = Inr (b, w2)
                 \<and> heap w2 b =
                     vars_Stack \<lparr>stack_id = stack_id s, intents = [], last_message_id = None,
                                 access_settings = None\<rparr>
                 \<and> map_of (heap w2 b) ''access_settings'' = Some PNone))
       \<and> (intents s \<noteq> [] \<or> (\<exists>m. last_message_id s = Some m \<and> m \<noteq> 0) \<longrightarrow>
           (\<exists>w1. save_stack p w (Some a) = Inr w1
              \<and> storage w1 (p_stack_key p (stack_id s)) \<noteq> []
              \<and> storage w1 (p_stack_key p (stack_id s)) = flat_Stack s))"
proof (intro conjI impI)
  assume e: "intents s = [] \<and> (last_message_id s = None \<or> last_message_id s = Some 0)"
  let ?w1 = "w\<lparr>storage := (storage w)(p_stack_key p (stack_id s) := [])\<rparr>"
  let ?fresh = "vars_Stack \<lparr>stack_id = stack_id s, intents = [], last_message_id = None,
                                 access_settings = None\<rparr>"
  from e show "save_stack p w (Some a) = Inr ?w1"
    using save_stack_tombstoned [OF assms(2)] by blast
  have "storage ?w1 (p_stack_key p (stack_id s)) = []" by simp
  from load_stack_no_record [OF this]
  have ld: "load_stack p ?w1 (stack_id s) = Inr (alloc ?w1 ?fresh)" .
  obtain b w2 where bw: "alloc ?w1 ?fresh = (b, w2)" by (cases "alloc ?w1 ?fresh")
  then have h: "heap w2 b = ?fresh" by (auto simp: alloc_def)
  have "map_of ?fresh ''access_settings'' = Some PNone" by (simp add: vars_Stack_def)
  with ld bw h show "\<exists>b w2. load_stack p ?w1 (stack_id s) = Inr (b, w2)
                 \<and> heap w2 b = ?fresh \<and> map_of (heap w2 b) ''access_settings'' = Some PNone"
    by (intro exI [of _ b] exI [of _ w2]) simp
next
  assume "intents s \<noteq> [] \<or> (\<exists>m. last_message_id s = Some m \<and> m \<noteq> 0)"
  then have "\<not> (intents s = [] \<and> (last_message_id s = None \<or> last_message_id s = Some 0))"
    by auto
  from save_stack_populated [OF assms(1,2) this]
  show "\<exists>w1. save_stack p w (Some a) = Inr w1
              \<and> storage w1 (p_stack_key p (stack_id s)) \<noteq> []
              \<and> storage w1 (p_stack_key p (stack_id s)) = flat_Stack s"
    by (simp add: flat_Stack_def)
qed

theorem empty_stack_tombstoned_witness:
  "save_stack demo_proxy demo_empty_stack_world (Some 0) =
     Inr (demo_empty_stack_world\<lparr>storage := (storage demo_empty_stack_world)
            (p_stack_key demo_proxy ''s'' := [])\<rparr>)
   \<and> (\<exists>b w2. load_stack demo_proxy
                 (demo_empty_stack_world\<lparr>storage := (storage demo_empty_stack_world)
                    (p_stack_key demo_proxy ''s'' := [])\<rparr>) ''s'' = Inr (b, w2)
         \<and> map_of (heap w2 b) ''access_settings'' = Some PNone)
   \<and> (\<exists>w1. save_stack demo_proxy demo_stack_world (Some 0) = Inr w1
         \<and> storage w1 (p_stack_key demo_proxy ''s'') \<noteq> [])"
proof -
  have h: "0 < lim demo_empty_stack_world"
    "heap demo_empty_stack_world 0 = vars_Stack demo_empty_stack"
    by (simp_all add: demo_empty_stack_world_def)
  have e: "intents demo_empty_stack = []
      \<and> (last_message_id demo_empty_stack = None \<or> last_message_id demo_empty_stack = Some 0)"
    by (simp add: demo_empty_stack_def)
  have i: "stack_id demo_empty_stack = ''s''" "stack_id demo_stack = ''s''"
    by (simp_all add: demo_empty_stack_def demo_stack_def)
  note t = empty_stack_tombstoned [OF h, of demo_proxy, THEN conjunct1, rule_format, OF e,
      unfolded i]
  from t obtain b w2 where
    l: "load_stack demo_proxy
          (demo_empty_stack_world\<lparr>storage := (storage demo_empty_stack_world)
             (p_stack_key demo_proxy ''s'' := [])\<rparr>) ''s'' = Inr (b, w2)"
       "map_of (heap w2 b) ''access_settings'' = Some PNone"
    by (elim exE conjE)
  then have 2: "\<exists>b w2. load_stack demo_proxy
                 (demo_empty_stack_world\<lparr>storage := (storage demo_empty_stack_world)
                    (p_stack_key demo_proxy ''s'' := [])\<rparr>) ''s'' = Inr (b, w2)
         \<and> map_of (heap w2 b) ''access_settings'' = Some PNone"
    by (intro exI conjI)
  note u = empty_stack_tombstoned [OF demo_stack_object, of demo_proxy, THEN conjunct2,
      rule_format, OF demo_stack_populated, unfolded i]
  from u obtain w1 where
    s: "save_stack demo_proxy demo_stack_world (Some 0) = Inr w1"
       "storage w1 (p_stack_key demo_proxy ''s'') \<noteq> []"
    by (elim exE conjE)
  then have 3: "\<exists>w1. save_stack demo_proxy demo_stack_world (Some 0) = Inr w1
         \<and> storage w1 (p_stack_key demo_proxy ''s'') \<noteq> []"
    by (intro exI conjI)
  from t [THEN conjunct1] 2 3 show ?thesis by (intro conjI)
qed

text \<open>
  C6, with every value other than \<open>None\<close> counted as a last message id: no such stack
  is tombstoned. That fails. The stack below has an empty history and the last message
  id \<open>0\<close>; the record written for it is the empty one.
\<close>

theorem zero_message_id_counterexample:
  "heap demo_zero_world 0 = vars_Stack demo_zero_stack
   \<and> intents demo_zero_stack = []
   \<and> last_message_id demo_zero_stack = Some 0
   \<and> save_stack demo_proxy demo_zero_world (Some 0) =
       Inr (set_data demo_zero_world (p_stack_key demo_proxy ''s'') [])"
  by (simp add: save_stack_def logically_empty_def Stack_empty_def getattr_obj_def
        Stack_id_def vars_Stack_def demo_zero_world_def demo_zero_stack_def)

text \<open>
  C9: saving leaves the entity as it was. After \<open>save_context\<close> the context object
  has the same attributes, its \<open>state\<close> is still the state object, while the stored
  record holds the text; after \<open>save_stack\<close> the stack object has the same attributes
  and its \<open>access_settings\<close> is still the object. No other existing object changes
  either: the writes go to the copy.
\<close>

theorem save_leaves_entity_unchanged:
  "(a < lim w \<and> heap w a = vars_Context c \<longrightarrow>
      (\<exists>w1. save_context p w (Some a) = Inr w1
         \<and> heap w1 a = vars_Context c
         \<and> map_of (heap w1 a) ''state'' = Some (PState (ctx_state c))
         \<and> map_of (storage w1 (p_context_key p (intent_id c))) ''state''
             = Some (PStr (state (ctx_state c)))
         \<and> (\<forall>b. b < lim w \<longrightarrow> heap w1 b = heap w b)))
   \<and> (a < lim w \<and> heap w a = vars_Stack s \<longrightarrow>
      (\<exists>w1. save_stack p w (Some a) = Inr w1
         \<and> heap w1 a = vars_Stack s
         \<and> (\<forall>acc. access_settings s = Some acc \<longrightarrow>
               map_of (heap w1 a) ''access_settings'' = Some (obj_AccessSettings acc))
         \<and> (\<forall>b. b < lim w \<longrightarrow> heap w1 b = heap w b)))"
proof (intro conjI impI)
  assume "a < lim w \<and> heap w a = vars_Context c"
  then have a: "a < lim w" "heap w a = vars_Context c" by simp_all
  have "map_of (vars_Context c) ''state'' = Some (PState (ctx_state c))"
    "map_of (flat_Context c) ''state'' = Some (PStr (state (ctx_state c)))"
    by (simp_all add: vars_Context_def flat_Context_def)
  with a save_context_typed [OF a, of p]
  show "\<exists>w1. save_context p w (Some a) = Inr w1
         \<and> heap w1 a = vars_Context c
         \<and> map_of (heap w1 a) ''state'' = Some (PState (ctx_state c))
         \<and> map_of (storage w1 (p_context_key p (intent_id c))) ''state''
             = Some (PStr (state (ctx_state c)))
         \<and> (\<forall>b. b < lim w \<longrightarrow> heap w1 b = heap w b)"
    by simp
next
  assume "a < lim w \<and> heap w a = vars_Stack s"
  then have a: "a < lim w" "heap w a = vars_Stack s" by simp_all
  have acc: "\<forall>acc. access_settings s = Some acc \<longrightarrow>
               map_of (vars_Stack s) ''access_settings'' = Some (obj_AccessSettings acc)"
    by (simp add: vars_Stack_def)
  show "\<exists>w1. save_stack p w (Some a) = Inr w1
         \<and> heap w1 a = vars_Stack s
         \<and> (\<forall>acc. access_settings s = Some acc \<longrightarrow>
               map_of (heap w1 a) ''access_settings'' = Some (obj_AccessSettings acc))
         \<and> (\<forall>b. b < lim w \<longrightarrow> heap w1 b = heap w b)"
  proof (cases "intents s = [] \<and> (last_message_id s = None \<or> last_message_id s = Some 0)")
    case True
    with save_stack_tombstoned [OF a(2), of p] a acc show ?thesis by simp
  next
    case False
    with save_stack_populated [OF a, of p] a acc show ?thesis by simp
  qed
qed

theorem save_leaves_entity_unchanged_witness:
  "(\<exists>w1. save_context demo_proxy demo_context_world (Some 0) = Inr w1
      \<and> heap w1 0 = vars_Context demo_context
      \<and> map_of (heap w1 0) ''state'' = Some (PState stateA)
      \<and> map_of (storage w1 (p_context_key demo_proxy ''i1'')) ''state''
          = Some (PStr ''Main:step1''))
   \<and> (\<exists>w1. save_stack demo_proxy demo_stack_world (Some 0) = Inr w1
      \<and> heap w1 0 = vars_Stack demo_stack
      \<and> map_of (heap w1 0) ''access_settings'' =
          Some (PAccessSettings (PList [PInt 1, PInt 2]) (PStatus ADMINISTRATOR) PNone))"
proof -
  have h: "0 < lim demo_context_world \<and> heap demo_context_world 0 = vars_Context demo_context"
    by (simp add: demo_context_world_def)
  have c: "ctx_state demo_context = stateA" "intent_id demo_context = ''i1''"
    "state stateA = ''Main:step1''"
    by (simp_all add: demo_context_def stateA_def)
  have g: "0 < lim demo_stack_world \<and> heap demo_stack_world 0 = vars_Stack demo_stack"
    using demo_stack_object by (intro conjI)
  note t = save_leaves_entity_unchanged
    [where a = 0 and w = demo_context_world and p = demo_proxy and c = demo_context,
      THEN conjunct1, rule_format, OF h, unfolded c]
  from t obtain w1 where
    r: "save_context demo_proxy demo_context_world (Some 0) = Inr w1"
      "heap w1 0 = vars_Context demo_context"
      "map_of (heap w1 0) ''state'' = Some (PState stateA)"
      "map_of (storage w1 (p_context_key demo_proxy ''i1'')) ''state''
          = Some (PStr ''Main:step1'')"
    by (elim exE conjE)
  then have 1: "\<exists>w1. save_context demo_proxy demo_context_world (Some 0) = Inr w1
      \<and> heap w1 0 = vars_Context demo_context
      \<and> map_of (heap w1 0) ''state'' = Some (PState stateA)
      \<and> map_of (storage w1 (p_context_key demo_proxy ''i1'')) ''state''
          = Some (PStr ''Main:step1'')"
    by (intro exI conjI)
  note u = save_leaves_entity_unchanged
    [where a = 0 and w = demo_stack_world and p = demo_proxy and s = demo_stack,
      THEN conjunct2, rule_format, OF g]
  from u obtain w1 where
    s: "save_stack demo_proxy demo_stack_world (Some 0) = Inr w1"
      "heap w1 0 = vars_Stack demo_stack"
      "\<forall>acc. access_settings demo_stack = Some acc \<longrightarrow>
         map_of (heap w1 0) ''access_settings'' = Some (obj_AccessSettings acc)"
    by (elim exE conjE)
  from s(3) [rule_format, OF demo_stack_settings(1)]
  have "map_of (heap w1 0) ''access_settings'' = Some (obj_AccessSettings demo_settings)" .
  then have "map_of (heap w1 0) ''access_settings'' =
      Some (PAccessSettings (PList [PInt 1, PInt 2]) (PStatus ADMINISTRATOR) PNone)"
    unfolding demo_stack_settings(2) .
  with s(1,2) have 2: "\<exists>w1. save_stack demo_proxy demo_stack_world (Some 0) = Inr w1
      \<and> heap w1 0 = vars_Stack demo_stack
      \<and> map_of (heap w1 0) ''access_settings'' =
          Some (PAccessSettings (PList [PInt 1, PInt 2]) (PStatus ADMINISTRATOR) PNone)"
    by (intro exI conjI)
  from 1 2 show ?thesis ..
qed

end
